theory Spec2Isabelle
  imports Main
begin

section \<open>Python strings\<close>

text \<open>
  A Python \<open>str\<close> is a sequence of Unicode code points.  A code point is a natural
  number, a string a list of them; \<open>py\<close> reads an ASCII literal.
\<close>

type_synonym codepoint = nat
type_synonym pystr = "codepoint list"

definition py :: "string \<Rightarrow> pystr" where
  "py s = map of_char s"

definition BACKTICK :: codepoint where
  "BACKTICK = 96"

definition LF :: codepoint where
  "LF = 10"

definition CR :: codepoint where
  "CR = 13"

definition SPACE :: codepoint where
  "SPACE = 32"

text \<open>The three backticks that \<open>sanitize_command\<close> looks for.\<close>

definition FENCE :: pystr where
  "FENCE = [BACKTICK, BACKTICK, BACKTICK]"

text \<open>
  \<open>str.isspace\<close> on one code point, as \<open>str.strip()\<close> without argument uses it:
  the code points of bidirectional class WS, B or S and of category Zs.
\<close>

definition is_space :: "codepoint \<Rightarrow> bool" where
  "is_space c =
     (c \<in> {9, 10, 11, 12, 13, 28, 29, 30, 31, 32, 133, 160, 5760,
           8232, 8233, 8239, 8287, 12288} \<or> (8192 \<le> c \<and> c \<le> 8202))"

text \<open>The line boundaries of \<open>str.splitlines()\<close>.\<close>

definition is_linebreak :: "codepoint \<Rightarrow> bool" where
  "is_linebreak c = (c \<in> {10, 11, 12, 13, 28, 29, 30, 133, 8232, 8233})"

definition lstrip :: "pystr \<Rightarrow> pystr" where
  "lstrip s = dropWhile is_space s"

definition rstrip :: "pystr \<Rightarrow> pystr" where
  "rstrip s = rev (dropWhile is_space (rev s))"

definition strip :: "pystr \<Rightarrow> pystr" where
  "strip s = rstrip (lstrip s)"

definition startswith :: "pystr \<Rightarrow> pystr \<Rightarrow> bool" where
  "startswith s p = (take (length p) s = p)"

definition endswith :: "pystr \<Rightarrow> pystr \<Rightarrow> bool" where
  "endswith s p = (length p \<le> length s \<and> drop (length s - length p) s = p)"

text \<open>\<open>sub in s\<close>: some suffix of \<open>s\<close> starts with \<open>sub\<close>.\<close>

fun contains :: "pystr \<Rightarrow> pystr \<Rightarrow> bool" where
  "contains [] sub = (sub = [])"
| "contains (c # cs) sub = (startswith (c # cs) sub \<or> contains cs sub)"

text \<open>
  \<open>str.splitlines()\<close>: while text remains, the line is the longest run without a line
  boundary; one boundary is consumed after it, \<open>\r\n\<close> counting as one.  No line
  follows a final boundary, and the empty string has no line.
\<close>

definition after_break :: "pystr \<Rightarrow> pystr" where
  "after_break r =
     (case r of
        [] \<Rightarrow> []
      | c # r' \<Rightarrow>
          (case r' of
             [] \<Rightarrow> []
           | d # r'' \<Rightarrow> if c = CR \<and> d = LF then r'' else r'))"

function splitlines :: "pystr \<Rightarrow> pystr list" where
  "splitlines s =
     (if s = [] then []
      else takeWhile (\<lambda>c. \<not> is_linebreak c) s
           # splitlines (after_break (dropWhile (\<lambda>c. \<not> is_linebreak c) s)))"
  by pat_completeness auto

lemma length_after_break: "r \<noteq> [] \<Longrightarrow> length (after_break r) < length r"
  by (auto simp: after_break_def split: list.splits)

lemma after_break_Nil: "after_break [] = []"
  by (simp add: after_break_def)

termination splitlines
proof (relation "measure length")
  show "wf (measure length)" by simp
next
  fix s :: pystr
  assume ne: "s \<noteq> []"
  let ?r = "dropWhile (\<lambda>c. \<not> is_linebreak c) s"
  show "(after_break ?r, s) \<in> measure length"
  proof (cases "?r = []")
    case True
    then have "length (after_break ?r) = 0" by (simp only: after_break_Nil list.size)
    with ne show ?thesis by simp
  next
    case False
    then have "length (after_break ?r) < length ?r" by (rule length_after_break)
    also have "length ?r \<le> length s" by (rule length_dropWhile_le)
    finally show ?thesis by simp
  qed
qed

declare splitlines.simps [simp del]

text \<open>\<open>sep.join(xs)\<close>.\<close>

fun join :: "pystr \<Rightarrow> pystr list \<Rightarrow> pystr" where
  "join sep [] = []"
| "join sep [x] = x"
| "join sep (x # y # ys) = x @ sep @ join sep (y # ys)"

section \<open>sanitize_command\<close>

text \<open>
  Step 1 of \<open>sanitize_command\<close>, on the trimmed text: when it contains the fence,
  the lines whose own trimmed text starts with the fence are left out, the others are
  joined with a newline and the result is trimmed.
\<close>

definition is_marker :: "pystr \<Rightarrow> bool" where
  "is_marker ln = startswith (strip ln) FENCE"

definition remove_code_blocks :: "pystr \<Rightarrow> pystr" where
  "remove_code_blocks raw =
     (if contains raw FENCE
      then strip (join [LF] (filter (\<lambda>ln. \<not> is_marker ln) (splitlines raw)))
      else raw)"

text \<open>Step 2: \<open>raw[1:-1].strip()\<close> when the text is wrapped in backticks.\<close>

definition wrapped :: "pystr \<Rightarrow> bool" where
  "wrapped raw = (startswith raw [BACKTICK] \<and> endswith raw [BACKTICK] \<and> length raw > 2)"

definition remove_inline_backticks :: "pystr \<Rightarrow> pystr" where
  "remove_inline_backticks raw =
     (if wrapped raw then strip (take (length raw - 2) (drop 1 raw)) else raw)"

definition sanitize_command :: "pystr \<Rightarrow> pystr" where
  "sanitize_command raw = remove_inline_backticks (remove_code_blocks (strip raw))"

section \<open>Arguments and confirmation\<close>

text \<open>
  Lines 90 to 93 of \<open>main\<close>: \<open>"-a" in sys.argv\<close> looks at every element, the
  program name included, and \<open>list.remove\<close> deletes the first equal element.
\<close>

definition DASH_A :: pystr where
  "DASH_A = py ''-a''"

fun list_remove :: "pystr \<Rightarrow> pystr list \<Rightarrow> pystr list" where
  "list_remove x [] = []"
| "list_remove x (y # ys) = (if y = x then ys else y # list_remove x ys)"

definition detect_mode :: "pystr list \<Rightarrow> bool \<times> pystr list" where
  "detect_mode args =
     (if DASH_A \<in> set args then (True, list_remove DASH_A args) else (False, args))"

text \<open>Line 99: the query is built from everything after the program name.\<close>

definition query_of :: "pystr list \<Rightarrow> pystr" where
  "query_of args = join [SPACE] (drop 1 args)"

text \<open>
  \<open>str.lower()\<close>.  On a string of ASCII code points it maps \<open>A\<close> to \<open>Z\<close> onto
  \<open>a\<close> to \<open>z\<close>; on any other string Python consults its Unicode tables, which are
  the parameter \<open>ulower\<close> here.
\<close>

definition ascii_lower :: "codepoint \<Rightarrow> codepoint" where
  "ascii_lower c = (if 65 \<le> c \<and> c \<le> 90 then c + 32 else c)"

definition lower :: "(pystr \<Rightarrow> pystr) \<Rightarrow> pystr \<Rightarrow> pystr" where
  "lower ulower s = (if list_all (\<lambda>c. c < 128) s then map ascii_lower s else ulower s)"

text \<open>Line 162: \<open>confirm in ['', 'y', 'yes']\<close>.\<close>

definition confirmed :: "pystr \<Rightarrow> bool" where
  "confirmed confirm = (confirm \<in> set [[], py ''y'', py ''yes''])"

section \<open>Exceptions, events and the world\<close>

text \<open>
  What \<open>requests.get\<close> can do: answer with some status code, or raise.
  \<open>ConnectTimeout\<close> is a subclass of \<open>ConnectionError\<close> in the requests library;
  \<open>OtherRequestError\<close> stands for the exceptions of the library outside the two
  classes that \<open>is_ollama_running\<close> names.
\<close>

datatype get_outcome =
  Response nat | ConnectionError | ConnectTimeout | ReadTimeout | OtherRequestError

text \<open>
  The exceptions that travel through \<open>main\<close>.  \<open>SystemExit\<close> is what \<open>sys.exit\<close>
  raises; it is a \<open>BaseException\<close> but not an \<open>Exception\<close>.
\<close>

datatype pyexc =
  SystemExit int | RequestError | FileNotFoundError | ChatError pystr | EOFError
  | MarkupError | IndexError

fun is_Exception :: "pyexc \<Rightarrow> bool" where
  "is_Exception (SystemExit code) = False"
| "is_Exception e = True"

type_synonym proc = nat

datatype msg =
  Usage pystr | CouldNotStart | Answer pystr | EmptyCommand | Suggested pystr
  | Aborted | ErrorMsg pyexc | PutToSleep | Interrupted

text \<open>What the program does to its surroundings, in order.\<close>

datatype event =
  Probe | Pkill | Popen proc | Sleep | Terminate proc | Wait proc | Kill proc
  | Chat bool pystr | Print msg | Input | Run pystr

text \<open>
  The surroundings of one invocation: the arguments, the outcome of the n-th health
  request, whether \<open>ollama\<close> can be launched, whether a terminated server exits
  within the two seconds of \<open>process.wait\<close>, what the model answers (\<open>Inl\<close> an
  exception of \<open>ollama.chat\<close>), what the user types (\<open>None\<close> for end of input),
  and the moment at which SIGINT arrives, if it does: the number of operations begun
  before it.
\<close>

record env =
  argv :: "pystr list"
  probes :: "nat \<Rightarrow> get_outcome"
  ollama_installed :: bool
  exits_in_time :: bool
  chat_result :: "pystr + pystr"
  confirm_input :: "pystr option"
  unicode_lower :: "pystr \<Rightarrow> pystr"
  malformed_markup :: "msg \<Rightarrow> bool"
  sigint_at :: "nat option"

text \<open>
  The state of the invocation: the global \<open>server_process\<close>, the events so far
  (oldest first), the number of operations begun, of health requests made and of
  processes launched.
\<close>

record world =
  server_process :: "proc option"
  trace :: "event list"
  clock :: nat
  probe_count :: nat
  launched :: nat

definition initial_world :: world where
  "initial_world =
     \<lparr>server_process = None, trace = [], clock = 0, probe_count = 0, launched = 0\<rparr>"

type_synonym 'a prog = "world \<Rightarrow> (pyexc + 'a) \<times> world"

definition return :: "'a \<Rightarrow> 'a prog" where
  "return x = (\<lambda>w. (Inr x, w))"

definition raise :: "pyexc \<Rightarrow> 'a prog" where
  "raise e = (\<lambda>w. (Inl e, w))"

definition bind :: "'a prog \<Rightarrow> ('a \<Rightarrow> 'b prog) \<Rightarrow> 'b prog" where
  "bind m f = (\<lambda>w. case m w of (Inl e, w') \<Rightarrow> (Inl e, w') | (Inr x, w') \<Rightarrow> f x w')"

text \<open>\<open>try: m except Exception as e: h e\<close>; a \<open>SystemExit\<close> passes through.\<close>

definition try_except :: "'a prog \<Rightarrow> (pyexc \<Rightarrow> 'a prog) \<Rightarrow> 'a prog" where
  "try_except m h =
     (\<lambda>w. case m w of
             (Inl e, w') \<Rightarrow> if is_Exception e then h e w' else (Inl e, w')
           | (Inr x, w') \<Rightarrow> (Inr x, w'))"

text \<open>
  \<open>try: m finally: fin\<close>: \<open>fin\<close> runs however \<open>m\<close> ends, and what it raises
  replaces the outcome of \<open>m\<close>.
\<close>

definition try_finally :: "'a prog \<Rightarrow> unit prog \<Rightarrow> 'a prog" where
  "try_finally m fin =
     (\<lambda>w. case m w of
             (r, w') \<Rightarrow> (case fin w' of (Inl e, w'') \<Rightarrow> (Inl e, w'') | (Inr u, w'') \<Rightarrow> (r, w'')))"

definition emit :: "event \<Rightarrow> unit prog" where
  "emit e = (\<lambda>w. (Inr (), w\<lparr>trace := trace w @ [e]\<rparr>))"

definition sys_exit :: "int \<Rightarrow> 'a prog" where
  "sys_exit code = raise (SystemExit code)"

section \<open>The operations of the program\<close>

text \<open>
  Every operation takes \<open>sig\<close>, what happens when the interpreter looks for a pending
  signal as the operation begins: \<open>poll_signals\<close> in \<open>main\<close> and in what it calls,
  \<open>no_signal\<close> inside the handler itself (one SIGINT is modelled).
\<close>

definition no_signal :: "unit prog" where
  "no_signal = return ()"

text \<open>
  \<open>console.print\<close> reads its string as markup and raises \<open>MarkupError\<close> when a
  closing tag in it matches no opening one.  The messages with text from outside (the
  program name, the model's answer, the text of an exception) can be of that kind,
  which \<open>malformed_markup\<close> tells; the suggested command is passed as a syntax object
  and is not read as markup.
\<close>

fun carries_text :: "msg \<Rightarrow> bool" where
  "carries_text (Usage name) = True"
| "carries_text (Answer content) = True"
| "carries_text (ErrorMsg e) = True"
| "carries_text m = False"

definition console_print :: "unit prog \<Rightarrow> env \<Rightarrow> msg \<Rightarrow> unit prog" where
  "console_print sig en m =
     bind sig (\<lambda>u.
       if carries_text m \<and> malformed_markup en m then raise MarkupError
       else emit (Print m))"

definition cleanup_zombies :: "unit prog \<Rightarrow> unit prog" where
  "cleanup_zombies sig = bind sig (\<lambda>u. emit Pkill)"

definition requests_get :: "unit prog \<Rightarrow> env \<Rightarrow> get_outcome prog" where
  "requests_get sig en =
     bind sig (\<lambda>u w. (Inr (probes en (probe_count w)),
                      w\<lparr>trace := trace w @ [Probe], probe_count := probe_count w + 1\<rparr>))"

text \<open>
  \<open>is_ollama_running\<close>, as a function of what its \<open>requests.get\<close> did: the
  \<open>except\<close> clause names \<open>ConnectionError\<close> (with its subclasses) and
  \<open>ReadTimeout\<close>; anything else is raised further.
\<close>

fun is_ollama_running :: "get_outcome \<Rightarrow> pyexc + bool" where
  "is_ollama_running (Response status) = Inr True"
| "is_ollama_running ConnectionError = Inr False"
| "is_ollama_running ConnectTimeout = Inr False"
| "is_ollama_running ReadTimeout = Inr False"
| "is_ollama_running OtherRequestError = Inl RequestError"

definition probe :: "unit prog \<Rightarrow> env \<Rightarrow> bool prog" where
  "probe sig en = bind (requests_get sig en) (\<lambda>r w. (is_ollama_running r, w))"

definition time_sleep :: "unit prog \<Rightarrow> unit prog" where
  "time_sleep sig = bind sig (\<lambda>u. emit Sleep)"

definition subprocess_Popen :: "unit prog \<Rightarrow> env \<Rightarrow> proc prog" where
  "subprocess_Popen sig en =
     bind sig (\<lambda>u w.
       if ollama_installed en
       then (Inr (launched w),
             w\<lparr>trace := trace w @ [Popen (launched w)], launched := launched w + 1\<rparr>)
       else (Inl FileNotFoundError, w))"

lemma bind_cong [fundef_cong]:
  "m = m' \<Longrightarrow> (\<And>x. f x = f' x) \<Longrightarrow> bind m f = bind m' f'"
proof -
  assume "m = m'"
  moreover assume "\<And>x. f x = f' x"
  then have "f = f'" by (rule ext)
  ultimately show ?thesis by simp
qed

text \<open>
  The loop of \<open>start_ollama\<close> (lines 41 to 47), \<open>retries\<close> being the counter on entry
  to the loop test.
\<close>

function wait_until_running :: "unit prog \<Rightarrow> env \<Rightarrow> nat \<Rightarrow> unit prog" where
  "wait_until_running sig en retries =
     bind (probe sig en) (\<lambda>running.
       if running then return ()
       else bind (time_sleep sig) (\<lambda>u.
         if retries + 1 > 20
         then bind (console_print sig en CouldNotStart) (\<lambda>u. sys_exit 1)
         else wait_until_running sig en (retries + 1)))"
  by pat_completeness auto
termination
  by (relation "measure (\<lambda>(sig, en, retries). 21 - retries)") auto

declare wait_until_running.simps [simp del]

definition start_ollama :: "unit prog \<Rightarrow> env \<Rightarrow> proc prog" where
  "start_ollama sig en =
     bind (subprocess_Popen sig en) (\<lambda>process.
     bind (wait_until_running sig en 0) (\<lambda>u. return process))"

definition proc_terminate :: "unit prog \<Rightarrow> proc \<Rightarrow> unit prog" where
  "proc_terminate sig p = bind sig (\<lambda>u. emit (Terminate p))"

text \<open>\<open>process.wait(timeout=2)\<close>: \<open>False\<close> stands for \<open>TimeoutExpired\<close>.\<close>

definition proc_wait :: "unit prog \<Rightarrow> env \<Rightarrow> proc \<Rightarrow> bool prog" where
  "proc_wait sig en p = bind sig (\<lambda>u. bind (emit (Wait p)) (\<lambda>u. return (exits_in_time en)))"

definition proc_kill :: "unit prog \<Rightarrow> proc \<Rightarrow> unit prog" where
  "proc_kill sig p = bind sig (\<lambda>u. emit (Kill p))"

definition stop_ollama :: "unit prog \<Rightarrow> env \<Rightarrow> proc option \<Rightarrow> unit prog" where
  "stop_ollama sig en process =
     (case process of
        None \<Rightarrow> return ()
      | Some p \<Rightarrow>
          bind (proc_terminate sig p) (\<lambda>u.
          bind (proc_wait sig en p) (\<lambda>exited.
            if exited then return () else proc_kill sig p)))"

definition get_server_process :: "proc option prog" where
  "get_server_process = (\<lambda>w. (Inr (server_process w), w))"

definition set_server_process :: "proc option \<Rightarrow> unit prog" where
  "set_server_process p = (\<lambda>w. (Inr (), w\<lparr>server_process := p\<rparr>))"

text \<open>Lines 79 to 83.\<close>

definition signal_handler :: "env \<Rightarrow> unit prog" where
  "signal_handler en =
     bind (console_print no_signal en Interrupted) (\<lambda>u.
     bind get_server_process (\<lambda>sp.
     bind (if sp \<noteq> None then stop_ollama no_signal en sp else return ()) (\<lambda>u.
     sys_exit 0)))"

text \<open>
  As an operation begins, the handler runs if SIGINT has arrived by then; what the
  handler raises is raised in the code that was running.
\<close>

definition poll_signals :: "env \<Rightarrow> unit prog" where
  "poll_signals en =
     (\<lambda>w. if sigint_at en = Some (clock w)
          then signal_handler en (w\<lparr>clock := clock w + 1\<rparr>)
          else (Inr (), w\<lparr>clock := clock w + 1\<rparr>))"

definition ollama_chat :: "unit prog \<Rightarrow> env \<Rightarrow> bool \<Rightarrow> pystr \<Rightarrow> pystr prog" where
  "ollama_chat sig en ask_mode query =
     bind sig (\<lambda>u. bind (emit (Chat ask_mode query)) (\<lambda>u w.
       (case chat_result en of Inl m \<Rightarrow> Inl (ChatError m) | Inr content \<Rightarrow> Inr content, w)))"

definition console_input :: "unit prog \<Rightarrow> env \<Rightarrow> pystr prog" where
  "console_input sig en =
     bind sig (\<lambda>u. bind (emit Input) (\<lambda>u w.
       (case confirm_input en of None \<Rightarrow> Inl EOFError | Some s \<Rightarrow> Inr s, w)))"

definition subprocess_run :: "unit prog \<Rightarrow> pystr \<Rightarrow> unit prog" where
  "subprocess_run sig command = bind sig (\<lambda>u. emit (Run command))"

section \<open>main\<close>

text \<open>Lines 148 to 165, the display of the model's answer.\<close>

definition display_output :: "unit prog \<Rightarrow> env \<Rightarrow> bool \<Rightarrow> pystr \<Rightarrow> unit prog" where
  "display_output sig en ask_mode content =
     (if ask_mode then console_print sig en (Answer content)
      else
        (let command = sanitize_command content in
         if command = [] then console_print sig en EmptyCommand
         else
           bind (console_print sig en (Suggested command)) (\<lambda>u.
           bind (console_input sig en) (\<lambda>confirm.
             if confirmed (lower (unicode_lower en) confirm)
             then subprocess_run sig command
             else console_print sig en Aborted))))"

text \<open>Lines 108 to 165, the body of the \<open>try\<close>.\<close>

definition try_body :: "unit prog \<Rightarrow> env \<Rightarrow> bool \<Rightarrow> pystr \<Rightarrow> bool \<Rightarrow> unit prog" where
  "try_body sig en ask_mode query was_already_running =
     bind (if \<not> was_already_running
           then bind (start_ollama sig en) (\<lambda>process. set_server_process (Some process))
           else return ()) (\<lambda>u.
     bind (ollama_chat sig en ask_mode query) (\<lambda>response.
     display_output sig en ask_mode (strip response)))"

text \<open>Lines 170 to 173, the \<open>finally\<close> clause.\<close>

definition finally_clause :: "unit prog \<Rightarrow> env \<Rightarrow> bool \<Rightarrow> unit prog" where
  "finally_clause sig en was_already_running =
     bind get_server_process (\<lambda>sp.
       if \<not> was_already_running \<and> sp \<noteq> None
       then bind (stop_ollama sig en sp) (\<lambda>u. console_print sig en PutToSleep)
       else return ())"

text \<open>
  \<open>main\<close>, from the registration of the handler on.  The usage message reads
  \<open>sys.argv[0]\<close>, which raises \<open>IndexError\<close> when removing \<open>-a\<close> has emptied the list.  The result is how the process
  ends: \<open>Inr ()\<close> a return from \<open>main\<close>, \<open>Inl (SystemExit code)\<close> an exit with that
  code, any other \<open>Inl\<close> an exception that nothing caught.
\<close>

definition main_prog :: "env \<Rightarrow> unit prog" where
  "main_prog en =
     (let sig = poll_signals en;
          (ask_mode, args) = detect_mode (argv en)
      in if length args < 2
         then (case args of
                 [] \<Rightarrow> raise IndexError
               | name # rest \<Rightarrow> bind (console_print sig en (Usage name)) (\<lambda>u. sys_exit 1))
         else
           (let query = query_of args in
            bind (probe sig en) (\<lambda>running.
            bind (if \<not> running then cleanup_zombies sig else return ()) (\<lambda>u.
            bind (probe sig en) (\<lambda>was_already_running.
              try_finally
                (try_except
                   (try_body sig en ask_mode query was_already_running)
                   (\<lambda>e. console_print sig en (ErrorMsg e)))
                (finally_clause sig en was_already_running))))))"

definition main :: "env \<Rightarrow> (pyexc + unit) \<times> world" where
  "main en = main_prog en initial_world"

section \<open>Notions used in the statements\<close>

text \<open>A trimmed text: empty, or with no white space at either end.\<close>

definition stripped :: "pystr \<Rightarrow> bool" where
  "stripped s = (s = [] \<or> (\<not> is_space (hd s) \<and> \<not> is_space (last s)))"

text \<open>
  A text made of white space and fences only: read from the left, every code point is
  white space or begins a run of three backticks.
\<close>

fun only_ws_fences :: "pystr \<Rightarrow> bool" where
  "only_ws_fences [] = True"
| "only_ws_fences (c # cs) =
     (if is_space c then only_ws_fences cs
      else (case cs of
              d # e # rest \<Rightarrow>
                c = BACKTICK \<and> d = BACKTICK \<and> e = BACKTICK \<and> only_ws_fences rest
            | _ \<Rightarrow> False))"

text \<open>
  The specification's line that is purely a fenced code-block delimiter, read in the
  widest sense Markdown gives it: trimmed, the line is a run of at least three
  backticks followed by an info string, such as \<open>bash\<close>, that has no backtick in it.
\<close>

definition purely_delimiter :: "pystr \<Rightarrow> bool" where
  "purely_delimiter ln =
     (startswith (strip ln) FENCE \<and>
      BACKTICK \<notin> set (dropWhile (\<lambda>c. c = BACKTICK) (strip ln)))"

text \<open>The events that act on a server process or on the processes named ollama.\<close>

definition touches_server :: "event \<Rightarrow> bool" where
  "touches_server e =
     (case e of Pkill \<Rightarrow> True | Popen p \<Rightarrow> True | Terminate p \<Rightarrow> True | Kill p \<Rightarrow> True
      | _ \<Rightarrow> False)"

definition is_run :: "event \<Rightarrow> bool" where
  "is_run e = (case e of Run c \<Rightarrow> True | _ \<Rightarrow> False)"

text \<open>
  Example surroundings: no server answers, \<open>ollama\<close> can be launched, the model
  answers with a command in backticks and the user confirms.
\<close>

definition example_env :: env where
  "example_env =
     \<lparr>argv = [py ''pls'', py ''list'', py ''files''], probes = (\<lambda>n. ConnectionError),
      ollama_installed = True, exits_in_time = True, chat_result = Inr (py ''`ls`''),
      confirm_input = Some (py ''Y''), unicode_lower = (\<lambda>s. s),
      malformed_markup = (\<lambda>m. False), sigint_at = None\<rparr>"

text \<open>
  For the proofs: a program keeps a property of the world, and a property of the world
  survives every change that an operation makes other than recording a bad event or
  assigning \<open>server_process\<close>.
\<close>

definition preserves :: "(world \<Rightarrow> bool) \<Rightarrow> 'a prog \<Rightarrow> bool" where
  "preserves Q m = (\<forall>w. Q w \<longrightarrow> Q (snd (m w)))"

definition stable :: "(event \<Rightarrow> bool) \<Rightarrow> (world \<Rightarrow> bool) \<Rightarrow> bool" where
  "stable bad Q =
     (\<forall>w. Q w \<longrightarrow>
        (\<forall>e. \<not> bad e \<longrightarrow> Q (w\<lparr>trace := trace w @ [e]\<rparr>)) \<and>
        (\<forall>c. Q (w\<lparr>clock := c\<rparr>)) \<and>
        (\<forall>n. Q (w\<lparr>probe_count := n\<rparr>)) \<and>
        (\<forall>n. Q (w\<lparr>launched := n\<rparr>)))"

definition untouched :: "world \<Rightarrow> bool" where
  "untouched w = (server_process w = None \<and> list_all (\<lambda>e. \<not> touches_server e) (trace w))"

definition nothing_reaped :: "world \<Rightarrow> bool" where
  "nothing_reaped w = list_all (\<lambda>e. e \<noteq> Pkill) (trace w)"

definition nothing_run :: "world \<Rightarrow> bool" where
  "nothing_run w = list_all (\<lambda>e. \<not> is_run e) (trace w)"

section \<open>Trimming\<close>

lemma rstrip_Nil: "rstrip [] = []"
  by (simp add: rstrip_def)

lemma strip_Nil: "strip [] = []"
  by (simp add: strip_def rstrip_def lstrip_def)

lemma rstrip_append_nonspace:
  "\<not> is_space c \<Longrightarrow> rstrip (xs @ c # ys) = xs @ c # rstrip ys"
  by (simp add: rstrip_def dropWhile_append)

lemma rstrip_all_space: "\<forall>c\<in>set s. is_space c \<Longrightarrow> rstrip s = []"
  by (simp add: rstrip_def)

lemma lstrip_all_space: "\<forall>c\<in>set s. is_space c \<Longrightarrow> lstrip s = []"
  by (simp add: lstrip_def)

lemma strip_all_space: "\<forall>c\<in>set s. is_space c \<Longrightarrow> strip s = []"
  by (simp add: strip_def lstrip_all_space rstrip_Nil)

lemma lstrip_head: "lstrip s \<noteq> [] \<Longrightarrow> \<not> is_space (hd (lstrip s))"
  unfolding lstrip_def by (rule hd_dropWhile)

lemma rstrip_last: "rstrip s \<noteq> [] \<Longrightarrow> \<not> is_space (last (rstrip s))"
  unfolding rstrip_def by (simp add: last_rev hd_dropWhile)

lemma rstrip_head:
  "s \<noteq> [] \<Longrightarrow> \<not> is_space (hd s) \<Longrightarrow> rstrip s \<noteq> [] \<and> hd (rstrip s) = hd s"
  by (cases s) (auto simp: rstrip_append_nonspace [where xs = "[]", simplified])

lemma stripped_strip: "stripped (strip s)"
proof (cases "lstrip s = []")
  case True
  then show ?thesis by (simp add: stripped_def strip_def rstrip_Nil)
next
  case False
  then have h: "\<not> is_space (hd (lstrip s))" by (rule lstrip_head)
  from rstrip_head [OF False h] rstrip_last [of "lstrip s"] h
  show ?thesis by (simp add: stripped_def strip_def)
qed

lemma strip_stripped: "stripped s \<Longrightarrow> strip s = s"
proof (cases s rule: rev_cases)
  case Nil
  then show ?thesis by (simp add: strip_Nil)
next
  case (snoc xs x)
  assume "stripped s"
  with snoc have a: "\<not> is_space (hd s)" and b: "\<not> is_space x"
    by (auto simp: stripped_def)
  have ne: "s \<noteq> []" using snoc by simp
  from a ne have "lstrip s = s" by (cases s) (simp_all add: lstrip_def)
  moreover from b have "rstrip (xs @ [x]) = xs @ [x]" by (simp add: rstrip_def)
  ultimately show ?thesis using snoc by (simp add: strip_def)
qed

lemma strip_strip: "strip (strip s) = strip s"
  by (rule strip_stripped) (rule stripped_strip)





lemma wrapped_iff:
  "wrapped t \<longleftrightarrow> (\<exists>inner. inner \<noteq> [] \<and> t = BACKTICK # inner @ [BACKTICK])"
proof
  assume w: "wrapped t"
  then obtain c cs where t: "t = c # cs" by (cases t) (auto simp: wrapped_def)
  with w have c: "c = BACKTICK" by (simp add: wrapped_def startswith_def)
  from w t have "cs \<noteq> []" by (auto simp: wrapped_def)
  then obtain ds d where cs: "cs = ds @ [d]" by (cases cs rule: rev_cases) auto
  with w t have d: "d = BACKTICK" by (simp add: wrapped_def endswith_def)
  from w t cs have "ds \<noteq> []" by (auto simp: wrapped_def)
  with t c cs d show "\<exists>inner. inner \<noteq> [] \<and> t = BACKTICK # inner @ [BACKTICK]" by blast
next
  assume "\<exists>inner. inner \<noteq> [] \<and> t = BACKTICK # inner @ [BACKTICK]"
  then show "wrapped t" by (auto simp: wrapped_def startswith_def endswith_def)
qed

lemma inline_wrapped:
  "inner \<noteq> [] \<Longrightarrow> remove_inline_backticks (BACKTICK # inner @ [BACKTICK]) = strip inner"
  by (simp add: remove_inline_backticks_def wrapped_def startswith_def endswith_def)

lemmas str_defs = py_def BACKTICK_def LF_def CR_def SPACE_def FENCE_def is_space_def
  is_linebreak_def lstrip_def rstrip_def strip_def startswith_def endswith_def
  after_break_def is_marker_def remove_code_blocks_def remove_inline_backticks_def
  sanitize_command_def wrapped_def

section \<open>Claims about sanitize_command\<close>

text \<open>
  C8: when the text left by the removal of the fence lines starts with a backtick, ends
  with one and has more than two code points, \<open>sanitize_command\<close> returns what lies
  between exactly that first and that last backtick, trimmed.  The quoted example
  keeps its pipe.
\<close>

theorem inline_backticks_stripped:
  "(\<forall>raw. wrapped (remove_code_blocks (strip raw)) \<longrightarrow>
      (\<exists>inner. inner \<noteq> [] \<and>
         remove_code_blocks (strip raw) = BACKTICK # inner @ [BACKTICK] \<and>
         inner = take (length (remove_code_blocks (strip raw)) - 2)
                   (drop 1 (remove_code_blocks (strip raw))) \<and>
         sanitize_command raw = strip inner)) \<and>
   sanitize_command (py ''`ipconfig getifaddr en0 | pbcopy`'') =
     py ''ipconfig getifaddr en0 | pbcopy''"
proof (intro conjI allI impI)
  fix raw
  assume w: "wrapped (remove_code_blocks (strip raw))"
  then obtain inner where i: "inner \<noteq> []"
    and t: "remove_code_blocks (strip raw) = BACKTICK # inner @ [BACKTICK]"
    unfolding wrapped_iff by blast
  have "sanitize_command raw = strip inner"
    unfolding sanitize_command_def t by (rule inline_wrapped [OF i])
  with i t show "\<exists>inner. inner \<noteq> [] \<and>
         remove_code_blocks (strip raw) = BACKTICK # inner @ [BACKTICK] \<and>
         inner = take (length (remove_code_blocks (strip raw)) - 2)
                   (drop 1 (remove_code_blocks (strip raw))) \<and>
         sanitize_command raw = strip inner"
    by auto
next
  show "sanitize_command (py ''`ipconfig getifaddr en0 | pbcopy`'') =
     py ''ipconfig getifaddr en0 | pbcopy''"
    by (simp add: str_defs)
qed

theorem inline_backticks_stripped_witness:
  "wrapped (remove_code_blocks (strip (py '' `ls | wc`  ''))) \<and>
   sanitize_command (py '' `ls | wc`  '') = py ''ls | wc''"
proof -
  have w: "wrapped (remove_code_blocks (strip (py '' `ls | wc`  '')))"
    by (simp add: str_defs)
  from inline_backticks_stripped w
  obtain inner where "inner = take (length (remove_code_blocks (strip (py '' `ls | wc`  ''))) - 2)
                   (drop 1 (remove_code_blocks (strip (py '' `ls | wc`  ''))))"
    and "sanitize_command (py '' `ls | wc`  '') = strip inner" by blast
  then have "sanitize_command (py '' `ls | wc`  '') = py ''ls | wc''"
    by (simp add: str_defs)
  with w show ?thesis by simp
qed

section \<open>Claims about the arguments\<close>

lemma list_remove_first: "x \<notin> set xs \<Longrightarrow> list_remove x (xs @ x # ys) = xs @ ys"
  by (induction xs) auto

text \<open>
  C10: answer mode is selected exactly when \<open>-a\<close> occurs somewhere in the argument
  list; the first occurrence is the one removed, whatever precedes it, and the
  arguments after it, further \<open>-a\<close> among them, stay in the query.
\<close>

theorem answer_flag_any_position:
  "(fst (detect_mode args) \<longleftrightarrow> DASH_A \<in> set args) \<and>
   (DASH_A \<notin> set args \<longrightarrow> detect_mode args = (False, args)) \<and>
   (DASH_A \<notin> set xs \<longrightarrow> detect_mode (xs @ DASH_A # ys) = (True, xs @ ys)) \<and>
   (DASH_A \<notin> set (prog # qs) \<longrightarrow>
      query_of (snd (detect_mode (prog # qs @ DASH_A # rs))) = join [SPACE] (qs @ rs))"
proof (intro conjI impI)
  show "fst (detect_mode args) \<longleftrightarrow> DASH_A \<in> set args"
    by (simp add: detect_mode_def)
  show "detect_mode args = (False, args)" if "DASH_A \<notin> set args"
    using that by (simp add: detect_mode_def)
  show "detect_mode (xs @ DASH_A # ys) = (True, xs @ ys)" if "DASH_A \<notin> set xs"
    using that by (simp add: detect_mode_def list_remove_first)
  show "query_of (snd (detect_mode (prog # qs @ DASH_A # rs))) = join [SPACE] (qs @ rs)"
    if "DASH_A \<notin> set (prog # qs)"
  proof -
    from that have "list_remove DASH_A ((prog # qs) @ DASH_A # rs) = (prog # qs) @ rs"
      by (rule list_remove_first)
    then show ?thesis by (simp add: detect_mode_def query_of_def)
  qed
qed

theorem answer_flag_any_position_witness:
  "DASH_A \<notin> set [py ''pls'', py ''what''] \<and>
   detect_mode [py ''pls'', py ''what'', py ''-a'', py ''is'', py ''-a''] =
     (True, [py ''pls'', py ''what'', py ''is'', py ''-a'']) \<and>
   query_of (snd (detect_mode [py ''pls'', py ''what'', py ''-a'', py ''is'', py ''-a''])) =
     py ''what is -a'' \<and>
   DASH_A \<notin> set [py ''pls'', py ''what'', py ''is''] \<and>
   detect_mode [py ''pls'', py ''what'', py ''is''] = (False, [py ''pls'', py ''what'', py ''is''])"
proof -
  have a: "DASH_A \<notin> set [py ''pls'', py ''what'']" by (simp add: DASH_A_def py_def)
  have b: "DASH_A \<notin> set [py ''pls'', py ''what'', py ''is'']" by (simp add: DASH_A_def py_def)
  have d: "py ''-a'' = DASH_A" by (simp add: DASH_A_def)
  from answer_flag_any_position [of "[py ''pls'', py ''what'', py ''is'']" "[py ''pls'', py ''what'']"
      "[py ''is'', py ''-a'']" "py ''pls''" "[py ''what'']" "[py ''is'', py ''-a'']"] a b
  have "detect_mode ([py ''pls'', py ''what''] @ DASH_A # [py ''is'', py ''-a'']) =
          (True, [py ''pls'', py ''what''] @ [py ''is'', py ''-a''])"
    and "query_of (snd (detect_mode (py ''pls'' # [py ''what''] @ DASH_A # [py ''is'', py ''-a'']))) =
          join [SPACE] ([py ''what''] @ [py ''is'', py ''-a''])"
    and "detect_mode [py ''pls'', py ''what'', py ''is''] = (False, [py ''pls'', py ''what'', py ''is''])"
    by blast+
  moreover have "join [SPACE] ([py ''what''] @ [py ''is'', py ''-a'']) = py ''what is -a''"
    by (simp add: py_def SPACE_def)
  ultimately show ?thesis using a b by (simp add: d)
qed

section \<open>Lines, white space and fences\<close>

lemma space_LF: "is_space LF"
  by (simp add: LF_def is_space_def)

lemma not_space_BACKTICK: "\<not> is_space BACKTICK"
  by (simp add: is_space_def BACKTICK_def)

lemma linebreak_space: "is_linebreak c \<Longrightarrow> is_space c"
  by (auto simp: is_linebreak_def is_space_def)

lemma owf_split: "is_space b \<Longrightarrow> only_ws_fences (xs @ b # ys) \<Longrightarrow> only_ws_fences xs \<and> only_ws_fences ys"
proof (induction xs rule: only_ws_fences.induct)
  case 1
  then show ?case by simp
next
  case (2 c cs)
  show ?case
  proof (cases "is_space c")
    case True
    with 2 show ?thesis by simp
  next
    case False
    with "2.prems" obtain rest where cs: "cs = BACKTICK # BACKTICK # rest" and c: "c = BACKTICK"
      by (cases cs; cases "tl cs") (auto simp: not_space_BACKTICK split: list.splits if_splits)
    with False "2.prems" have "only_ws_fences (rest @ b # ys)" by simp
    with "2.IH"(2) [OF False cs] "2.prems"(1) c cs have "only_ws_fences rest \<and> only_ws_fences ys" by simp
    with False c cs show ?thesis by simp
  qed
qed

lemma owf_lstrip: "only_ws_fences s \<Longrightarrow> only_ws_fences (lstrip s)"
  by (induction s) (auto simp: lstrip_def)

lemma owf_starts: "only_ws_fences s \<Longrightarrow> s \<noteq> [] \<Longrightarrow> \<not> is_space (hd s) \<Longrightarrow> startswith s FENCE"
  by (cases s) (auto simp: startswith_def FENCE_def split: list.splits)

lemma startswith_rstrip: "startswith s FENCE \<Longrightarrow> startswith (rstrip s) FENCE"
proof -
  assume "startswith s FENCE"
  then obtain t where s: "s = [BACKTICK, BACKTICK] @ BACKTICK # t"
    by (cases s; cases "tl s"; cases "tl (tl s)") (auto simp: startswith_def FENCE_def)
  show ?thesis unfolding s rstrip_append_nonspace [OF not_space_BACKTICK]
    by (simp add: startswith_def FENCE_def)
qed

lemma owf_blank_or_marker: "only_ws_fences l \<Longrightarrow> lstrip l = [] \<or> is_marker l"
proof (cases "lstrip l = []")
  case True then show ?thesis by simp
next
  case False
  assume "only_ws_fences l"
  then have "only_ws_fences (lstrip l)" by (rule owf_lstrip)
  from owf_starts [OF this False lstrip_head [OF False]]
  show ?thesis by (simp add: is_marker_def strip_def startswith_rstrip)
qed

lemma contains_startswith: "startswith s p \<Longrightarrow> contains s p"
  by (cases s) (auto simp: startswith_def)

lemma owf_strip_empty_or_fence: "only_ws_fences s \<Longrightarrow> strip s = [] \<or> contains (strip s) FENCE"
  using owf_blank_or_marker [of s]
  by (auto simp: strip_def rstrip_Nil is_marker_def intro: contains_startswith)

lemma takeWhile_dropWhile_owf:
  assumes "only_ws_fences s"
  shows "only_ws_fences (takeWhile (\<lambda>c. \<not> is_linebreak c) s) \<and>
         only_ws_fences (after_break (dropWhile (\<lambda>c. \<not> is_linebreak c) s))"
proof (cases "dropWhile (\<lambda>c. \<not> is_linebreak c) s")
  case Nil
  then have "takeWhile (\<lambda>c. \<not> is_linebreak c) s = s"
    by (metis append_Nil2 takeWhile_dropWhile_id)
  moreover have "after_break (dropWhile (\<lambda>c. \<not> is_linebreak c) s) = []"
    unfolding Nil by (rule after_break_Nil)
  ultimately show ?thesis using assms by (simp only: only_ws_fences.simps simp_thms)
next
  case (Cons b r)
  then have lb: "is_linebreak b" using hd_dropWhile [of "\<lambda>c. \<not> is_linebreak c" s] by auto
  have "s = takeWhile (\<lambda>c. \<not> is_linebreak c) s @ b # r"
    using Cons takeWhile_dropWhile_id [of "\<lambda>c. \<not> is_linebreak c" s] by simp
  with assms owf_split [OF linebreak_space [OF lb], of "takeWhile (\<lambda>c. \<not> is_linebreak c) s" r]
  have tw: "only_ws_fences (takeWhile (\<lambda>c. \<not> is_linebreak c) s)" and r: "only_ws_fences r" by auto
  have "only_ws_fences (after_break (b # r))"
    using r by (cases r) (auto simp: after_break_def space_LF)
  with tw Cons show ?thesis by simp
qed

lemma owf_lines: "only_ws_fences s \<Longrightarrow> \<forall>l\<in>set (splitlines s). only_ws_fences l"
proof (induction s rule: splitlines.induct)
  case (1 s)
  show ?case
  proof (cases "s = []")
    case True
    then show ?thesis by (simp add: splitlines.simps)
  next
    case False
    from takeWhile_dropWhile_owf [OF "1.prems"] "1.IH" [OF False] False
    show ?thesis by (subst splitlines.simps) simp
  qed
qed

lemma join_all_space:
  "\<forall>l\<in>set ls. \<forall>c\<in>set l. is_space c \<Longrightarrow> \<forall>c\<in>set (join [LF] ls). is_space c"
  by (induction "[LF]" ls rule: join.induct) (auto simp: space_LF)

lemma lstrip_Nil_iff: "lstrip l = [] \<longleftrightarrow> (\<forall>c\<in>set l. is_space c)"
  by (simp add: lstrip_def)

lemma blank_or_marker_lines_empty:
  assumes "\<forall>l\<in>set (splitlines r). lstrip l = [] \<or> is_marker l"
  shows "strip (join [LF] (filter (\<lambda>ln. \<not> is_marker ln) (splitlines r))) = []"
proof -
  have "\<forall>l\<in>set (filter (\<lambda>ln. \<not> is_marker ln) (splitlines r)). \<forall>c\<in>set l. is_space c"
    using assms by (auto simp: lstrip_Nil_iff)
  then show ?thesis by (intro strip_all_space join_all_space)
qed

lemma inline_Nil: "remove_inline_backticks [] = []"
  by (simp add: remove_inline_backticks_def wrapped_def startswith_def)

lemma owf_rstrip: "only_ws_fences s \<Longrightarrow> only_ws_fences (rstrip s)"
proof (induction s rule: only_ws_fences.induct)
  case 1 then show ?case by (simp add: rstrip_Nil)
next
  case (2 c cs)
  show ?case
  proof (cases "is_space c")
    case True
    with 2 have ih: "only_ws_fences (rstrip cs)" by simp
    show ?thesis
    proof (cases "\<forall>x\<in>set cs. is_space x")
      case True
      with \<open>is_space c\<close> have "rstrip (c # cs) = []" by (intro rstrip_all_space) simp
      then show ?thesis by simp
    next
      case False
      then have "rstrip (c # cs) = c # rstrip cs" by (auto simp: rstrip_def dropWhile_append)
      with ih True show ?thesis by simp
    qed
  next
    case False
    with "2.prems" obtain rest where cs: "cs = BACKTICK # BACKTICK # rest" and c: "c = BACKTICK"
      and r: "only_ws_fences rest"
      by (cases cs; cases "tl cs") (auto split: list.splits if_splits)
    have "rstrip (c # cs) = [BACKTICK, BACKTICK] @ BACKTICK # rstrip rest"
      unfolding c cs using rstrip_append_nonspace [OF not_space_BACKTICK, of "[BACKTICK, BACKTICK]" rest] by simp
    with "2.IH"(2) [OF False cs] r show ?thesis by (simp add: not_space_BACKTICK)
  qed
qed

lemma owf_strip: "only_ws_fences s \<Longrightarrow> only_ws_fences (strip s)"
  by (simp add: strip_def owf_lstrip owf_rstrip)

lemma splitlines_Nil: "splitlines [] = []"
  using splitlines.simps [of "[]"] by simp

lemma splitlines_nonempty:
  "s \<noteq> [] \<Longrightarrow>
   splitlines s = takeWhile (\<lambda>c. \<not> is_linebreak c) s
                  # splitlines (after_break (dropWhile (\<lambda>c. \<not> is_linebreak c) s))"
  using splitlines.simps [of s] by simp

lemma takeWhile_no_break:
  "c \<in> set (takeWhile (\<lambda>c. \<not> is_linebreak c) s) \<Longrightarrow> \<not> is_linebreak c"
  by (drule set_takeWhileD) simp

lemma set_splitlines:
  assumes "s \<noteq> []"
  shows "set (splitlines s) =
         insert (takeWhile (\<lambda>c. \<not> is_linebreak c) s)
           (set (splitlines (after_break (dropWhile (\<lambda>c. \<not> is_linebreak c) s))))"
  by (subst splitlines_nonempty [OF assms]) (rule list.set(2))

lemma lines_no_break: "\<forall>l\<in>set (splitlines s). \<forall>c\<in>set l. \<not> is_linebreak c"
proof (induction s rule: splitlines.induct)
  case (1 s)
  show ?case
  proof (cases "s = []")
    case True
    then show ?thesis by (simp add: splitlines_Nil)
  next
    case False
    have "\<forall>c\<in>set (takeWhile (\<lambda>c. \<not> is_linebreak c) s). \<not> is_linebreak c"
      by (rule ballI) (rule takeWhile_no_break)
    with "1.IH" [OF False] show ?thesis
      unfolding set_splitlines [OF False] by blast
  qed
qed

lemma not_linebreak_LF: "is_linebreak LF"
  by (simp add: is_linebreak_def LF_def)

lemma splitlines_line_break:
  assumes "\<forall>c\<in>set x. \<not> is_linebreak c"
  shows "splitlines (x @ LF # r) = x # splitlines r"
proof -
  have t: "takeWhile (\<lambda>c. \<not> is_linebreak c) (x @ LF # r) = x"
    using assms by (simp add: takeWhile_append not_linebreak_LF)
  have d: "dropWhile (\<lambda>c. \<not> is_linebreak c) (x @ LF # r) = LF # r"
    using assms by (simp add: dropWhile_append not_linebreak_LF)
  have a: "after_break (LF # r) = r"
    by (cases r) (simp_all add: after_break_def LF_def CR_def)
  have "x @ LF # r \<noteq> []" by simp
  from splitlines_nonempty [OF this] show ?thesis
    by (simp only: t d a)
qed

lemma splitlines_single:
  assumes "\<forall>c\<in>set x. \<not> is_linebreak c" and "x \<noteq> []"
  shows "splitlines x = [x]"
proof -
  have t: "takeWhile (\<lambda>c. \<not> is_linebreak c) x = x" using assms by simp
  have d: "dropWhile (\<lambda>c. \<not> is_linebreak c) x = []" using assms by simp
  from splitlines_nonempty [OF assms(2)] show ?thesis
    by (simp only: t d after_break_Nil splitlines_Nil)
qed

lemma splitlines_join:
  "\<forall>l\<in>set ls. \<forall>c\<in>set l. \<not> is_linebreak c \<Longrightarrow> ls \<noteq> [] \<Longrightarrow> last ls \<noteq> [] \<Longrightarrow>
   splitlines (join [LF] ls) = ls"
proof (induction "[LF]" ls rule: join.induct)
  case 1
  then show ?case by simp
next
  case (2 x)
  then show ?case by (simp add: splitlines_single)
next
  case (3 x y ys)
  then show ?case by (simp add: splitlines_line_break)
qed

lemma join_last_empty:
  "ls \<noteq> [] \<Longrightarrow> last ls = [] \<Longrightarrow> join [LF] ls = [] \<or> last (join [LF] ls) = LF"
proof (induction "[LF]" ls rule: join.induct)
  case 1
  then show ?case by simp
next
  case (2 x)
  then show ?case by simp
next
  case (3 x y ys)
  then show ?case by (auto simp: last_append)
qed

lemma stripped_join_last:
  assumes "join [LF] ls \<noteq> []" and "stripped (join [LF] ls)"
  shows "ls \<noteq> [] \<and> last ls \<noteq> []"
proof -
  from assms(1) have ne: "ls \<noteq> []" by auto
  have "last ls \<noteq> []"
  proof
    assume "last ls = []"
    from join_last_empty [OF ne this] assms(1) have "last (join [LF] ls) = LF" by simp
    with assms show False by (simp add: stripped_def space_LF)
  qed
  with ne show ?thesis by simp
qed

lemma sanitize_only_ws_fences:
  "only_ws_fences raw \<Longrightarrow> sanitize_command raw = []"
proof -
  assume o: "only_ws_fences raw"
  then have os: "only_ws_fences (strip raw)" by (rule owf_strip)
  show ?thesis
  proof (cases "contains (strip raw) FENCE")
    case False
    with owf_strip_empty_or_fence [OF o] have "strip raw = []" by simp
    then show ?thesis
      by (simp add: sanitize_command_def remove_code_blocks_def inline_Nil FENCE_def)
  next
    case True
    from owf_lines [OF os]
    have "\<forall>l\<in>set (splitlines (strip raw)). lstrip l = [] \<or> is_marker l"
      by (auto dest: owf_blank_or_marker)
    from blank_or_marker_lines_empty [OF this] True
    show ?thesis by (simp add: sanitize_command_def remove_code_blocks_def inline_Nil)
  qed
qed

section \<open>The removal of fence lines\<close>

text \<open>
  C4, as stated: of a text that contains the fence, exactly the lines that are purely a
  delimiter are dropped and every other line is kept.  This fails: a line is dropped as
  soon as its trimmed text starts with the fence, whatever follows, so the one-line
  answer below, a command between two fences, is dropped as a whole and nothing is left.
\<close>

theorem fence_line_with_command_dropped:
  "contains (strip (py ''```ls -la```'')) FENCE \<and>
   splitlines (strip (py ''```ls -la```'')) = [py ''```ls -la```''] \<and>
   \<not> purely_delimiter (py ''```ls -la```'') \<and>
   sanitize_command (py ''```ls -la```'') = []"
  by (simp add: str_defs purely_delimiter_def splitlines.simps)

text \<open>
  C4, amended: when the trimmed text contains the fence, every line whose own trimmed
  text starts with the fence is left out, the other lines are joined in their order by
  single newlines, the joined text is trimmed and handed to the inline-backtick step.
  When the joined text is not empty, is already trimmed and is not wrapped in
  backticks, it is the result, and the lines of the result are exactly the lines kept,
  blank ones between them included.  The quoted example gives the quoted command.
\<close>

theorem fence_lines_removed:
  "(\<forall>raw. contains (strip raw) FENCE \<longrightarrow>
      sanitize_command raw =
        remove_inline_backticks
          (strip (join [LF]
             (filter (\<lambda>ln. \<not> startswith (strip ln) FENCE) (splitlines (strip raw)))))) \<and>
   (\<forall>raw kept.
      contains (strip raw) FENCE \<and>
      kept = filter (\<lambda>ln. \<not> startswith (strip ln) FENCE) (splitlines (strip raw)) \<and>
      join [LF] kept \<noteq> [] \<and> stripped (join [LF] kept) \<and> \<not> wrapped (join [LF] kept) \<longrightarrow>
      sanitize_command raw = join [LF] kept \<and> splitlines (sanitize_command raw) = kept) \<and>
   sanitize_command
     (py (''```bash'' @ [CHR 0x0A] @ ''pmset -g batt | grep -o '' @ [CHR 0x22] @ ''[0-9]*%'' @
          [CHR 0x22] @ [CHR 0x0A] @ ''```'')) =
     py (''pmset -g batt | grep -o '' @ [CHR 0x22] @ ''[0-9]*%'' @ [CHR 0x22])"
proof (intro conjI allI impI)
  fix raw
  assume "contains (strip raw) FENCE"
  then show "sanitize_command raw =
        remove_inline_backticks
          (strip (join [LF]
             (filter (\<lambda>ln. \<not> startswith (strip ln) FENCE) (splitlines (strip raw)))))"
    by (simp add: sanitize_command_def remove_code_blocks_def is_marker_def)
next
  fix raw kept
  assume h: "contains (strip raw) FENCE \<and>
      kept = filter (\<lambda>ln. \<not> startswith (strip ln) FENCE) (splitlines (strip raw)) \<and>
      join [LF] kept \<noteq> [] \<and> stripped (join [LF] kept) \<and> \<not> wrapped (join [LF] kept)"
  then have k: "kept = filter (\<lambda>ln. \<not> startswith (strip ln) FENCE) (splitlines (strip raw))"
    and c: "contains (strip raw) FENCE" and ne: "join [LF] kept \<noteq> []"
    and st: "stripped (join [LF] kept)" and nw: "\<not> wrapped (join [LF] kept)"
    by blast+
  have "remove_code_blocks (strip raw) = strip (join [LF] kept)"
    unfolding k using c by (simp add: remove_code_blocks_def is_marker_def)
  also have "\<dots> = join [LF] kept" using st by (rule strip_stripped)
  finally have "sanitize_command raw = remove_inline_backticks (join [LF] kept)"
    by (simp add: sanitize_command_def)
  with nw have s: "sanitize_command raw = join [LF] kept"
    by (simp add: remove_inline_backticks_def)
  have nb: "\<forall>l\<in>set kept. \<forall>c\<in>set l. \<not> is_linebreak c"
    unfolding k using lines_no_break [of "strip raw"] by auto
  from stripped_join_last [OF ne st] have "kept \<noteq> []" and "last kept \<noteq> []" by blast+
  with nb have "splitlines (join [LF] kept) = kept"
    by (rule splitlines_join)
  with s show "sanitize_command raw = join [LF] kept" and "splitlines (sanitize_command raw) = kept"
    by simp_all
next
  show "sanitize_command
     (py (''```bash'' @ [CHR 0x0A] @ ''pmset -g batt | grep -o '' @ [CHR 0x22] @ ''[0-9]*%'' @
          [CHR 0x22] @ [CHR 0x0A] @ ''```'')) =
     py (''pmset -g batt | grep -o '' @ [CHR 0x22] @ ''[0-9]*%'' @ [CHR 0x22])"
    by (simp add: str_defs splitlines.simps)
qed

theorem fence_lines_removed_witness:
  "contains (strip (py (''```bash'' @ [CHR 0x0A] @ ''echo a'' @ [CHR 0x0A, CHR 0x0A] @ ''echo b'' @
                        [CHR 0x0A] @ ''```''))) FENCE \<and>
   sanitize_command (py (''```bash'' @ [CHR 0x0A] @ ''echo a'' @ [CHR 0x0A, CHR 0x0A] @ ''echo b'' @
                        [CHR 0x0A] @ ''```'')) =
     py (''echo a'' @ [CHR 0x0A, CHR 0x0A] @ ''echo b'') \<and>
   splitlines (sanitize_command (py (''```bash'' @ [CHR 0x0A] @ ''echo a'' @ [CHR 0x0A, CHR 0x0A] @
                        ''echo b'' @ [CHR 0x0A] @ ''```''))) =
     [py ''echo a'', [], py ''echo b'']"
proof -
  let ?raw = "py (''```bash'' @ [CHR 0x0A] @ ''echo a'' @ [CHR 0x0A, CHR 0x0A] @ ''echo b'' @
                        [CHR 0x0A] @ ''```'')"
  let ?kept = "[py ''echo a'', [], py ''echo b'']"
  have c: "contains (strip ?raw) FENCE"
    by (simp add: str_defs)
  have k: "?kept = filter (\<lambda>ln. \<not> startswith (strip ln) FENCE) (splitlines (strip ?raw))"
    by (simp add: str_defs splitlines.simps)
  have j: "join [LF] ?kept = py (''echo a'' @ [CHR 0x0A, CHR 0x0A] @ ''echo b'')"
    by (simp add: str_defs)
  have ne: "join [LF] ?kept \<noteq> []" unfolding j by (simp add: py_def)
  have st: "stripped (join [LF] ?kept)" unfolding j by (simp add: stripped_def str_defs)
  have nw: "\<not> wrapped (join [LF] ?kept)" unfolding j by (simp add: str_defs)
  from fence_lines_removed c k ne st nw
  have s1: "sanitize_command ?raw = join [LF] ?kept"
    and s2: "splitlines (sanitize_command ?raw) = ?kept"
    by blast+
  from c s1 [unfolded j] s2 show ?thesis by (intro conjI)
qed

section \<open>Running the program\<close>

lemma return_apply: "return x w = (Inr x, w)"
  by (simp add: return_def)

lemma raise_apply: "raise e w = (Inl e, w)"
  by (simp add: raise_def)

lemma bind_apply:
  "bind m f w = (case m w of (Inl e, w') \<Rightarrow> (Inl e, w') | (Inr x, w') \<Rightarrow> f x w')"
  by (simp add: bind_def)

lemma bind_Inr: "m w = (Inr x, w') \<Longrightarrow> bind m f w = f x w'"
  by (simp add: bind_def)

lemma bind_Inl: "m w = (Inl e, w') \<Longrightarrow> bind m f w = (Inl e, w')"
  by (simp add: bind_def)

lemma emit_apply: "emit e w = (Inr (), w\<lparr>trace := trace w @ [e]\<rparr>)"
  by (simp add: emit_def)

lemma poll_signals_quiet:
  "sigint_at en \<noteq> Some (clock w) \<Longrightarrow> poll_signals en w = (Inr (), w\<lparr>clock := clock w + 1\<rparr>)"
  by (simp add: poll_signals_def)

lemma probe_quiet:
  "sigint_at en \<noteq> Some (clock w) \<Longrightarrow>
   probe (poll_signals en) en w =
     (is_ollama_running (probes en (probe_count w)),
      w\<lparr>trace := trace w @ [Probe], clock := clock w + 1, probe_count := probe_count w + 1\<rparr>)"
  by (simp add: probe_def requests_get_def bind_apply poll_signals_quiet)

lemma time_sleep_quiet:
  "sigint_at en \<noteq> Some (clock w) \<Longrightarrow>
   time_sleep (poll_signals en) w = (Inr (), w\<lparr>trace := trace w @ [Sleep], clock := clock w + 1\<rparr>)"
  by (simp add: time_sleep_def bind_apply poll_signals_quiet emit_apply)

lemma console_print_quiet:
  "sigint_at en \<noteq> Some (clock w) \<Longrightarrow> \<not> (carries_text m \<and> malformed_markup en m) \<Longrightarrow>
   console_print (poll_signals en) en m w =
     (Inr (), w\<lparr>trace := trace w @ [Print m], clock := clock w + 1\<rparr>)"
  by (auto simp: console_print_def bind_apply poll_signals_quiet emit_apply)

lemma wait_until_running_fails:
  assumes "sigint_at en = None"
  shows "(\<forall>i<Suc k. is_ollama_running (probes en (probe_count w + i)) = Inr False) \<Longrightarrow>
         retries + Suc k = 21 \<Longrightarrow>
         wait_until_running (poll_signals en) en retries w =
           (Inl (SystemExit 1),
            w\<lparr>trace := trace w @ concat (replicate (Suc k) [Probe, Sleep]) @ [Print CouldNotStart],
              clock := clock w + 2 * Suc k + 1,
              probe_count := probe_count w + Suc k\<rparr>)"
proof (induction k arbitrary: retries w)
  case 0
  then have r: "retries = 20" and p: "is_ollama_running (probes en (probe_count w)) = Inr False"
    by simp_all
  show ?case
    unfolding r
    by (subst wait_until_running.simps)
       (simp add: bind_apply probe_quiet time_sleep_quiet console_print_quiet assms p
          sys_exit_def raise_apply)
next
  case (Suc k)
  from Suc.prems have r: "\<not> retries + 1 > 20" and p: "is_ollama_running (probes en (probe_count w)) = Inr False"
    by auto
  let ?w = "w\<lparr>trace := trace w @ [Probe, Sleep], clock := clock w + 2, probe_count := probe_count w + 1\<rparr>"
  have step: "wait_until_running (poll_signals en) en retries w =
                wait_until_running (poll_signals en) en (retries + 1) ?w"
    using r
    by (subst wait_until_running.simps)
       (simp add: bind_apply probe_quiet time_sleep_quiet assms p,
        rule arg_cong [where f = "wait_until_running (poll_signals en) en (Suc retries)"],
        simp)
  have "\<forall>i<Suc k. is_ollama_running (probes en (probe_count ?w + i)) = Inr False"
  proof (intro allI impI)
    fix i assume "i < Suc k"
    then have "Suc i < Suc (Suc k)" by simp
    with Suc.prems(1) have "is_ollama_running (probes en (probe_count w + Suc i)) = Inr False"
      by blast
    then show "is_ollama_running (probes en (probe_count ?w + i)) = Inr False" by simp
  qed
  moreover have "retries + 1 + Suc k = 21" using Suc.prems(2) by simp
  ultimately show ?case
    unfolding step by (simp add: Suc.IH)
qed

lemma try_except_apply:
  "try_except m h w =
     (case m w of
        (Inl e, w') \<Rightarrow> if is_Exception e then h e w' else (Inl e, w')
      | (Inr x, w') \<Rightarrow> (Inr x, w'))"
  by (simp add: try_except_def)

lemma try_finally_apply:
  "try_finally m fin w =
     (case m w of
        (r, w') \<Rightarrow> (case fin w' of (Inl e, w'') \<Rightarrow> (Inl e, w'') | (Inr u, w'') \<Rightarrow> (r, w'')))"
  by (simp add: try_finally_def)

lemma get_server_process_apply: "get_server_process w = (Inr (server_process w), w)"
  by (simp add: get_server_process_def)

lemma set_server_process_apply:
  "set_server_process p w = (Inr (), w\<lparr>server_process := p\<rparr>)"
  by (simp add: set_server_process_def)

lemma poll_signals_apply:
  "poll_signals en w =
     (if sigint_at en = Some (clock w)
      then signal_handler en (w\<lparr>clock := clock w + 1\<rparr>)
      else (Inr (), w\<lparr>clock := clock w + 1\<rparr>))"
  by (simp add: poll_signals_def)

lemma bind_weak_cong: "w = w' \<Longrightarrow> bind m f w = bind m f w'"
  by simp

lemma try_except_weak_cong: "w = w' \<Longrightarrow> try_except m h w = try_except m h w'"
  by simp

lemma try_finally_weak_cong: "w = w' \<Longrightarrow> try_finally m h w = try_finally m h w'"
  by simp

lemmas run_congs = bind_weak_cong try_except_weak_cong try_finally_weak_cong
  prod.case_cong_weak sum.case_cong_weak

lemmas run_simps = return_apply raise_apply bind_apply try_except_apply try_finally_apply
  emit_apply get_server_process_apply set_server_process_apply poll_signals_apply
  sys_exit_def no_signal_def console_print_def cleanup_zombies_def requests_get_def
  probe_def time_sleep_def subprocess_Popen_def start_ollama_def proc_terminate_def
  proc_wait_def proc_kill_def stop_ollama_def signal_handler_def ollama_chat_def
  console_input_def subprocess_run_def display_output_def try_body_def finally_clause_def
  main_prog_def main_def initial_world_def detect_mode_def query_of_def DASH_A_def
  lower_def ascii_lower_def confirmed_def Let_def

lemma example_env_fields:
  "argv example_env = [py ''pls'', py ''list'', py ''files'']"
  "probes example_env = (\<lambda>n. ConnectionError)"
  "ollama_installed example_env = True"
  "exits_in_time example_env = True"
  "chat_result example_env = Inr (py ''`ls`'')"
  "confirm_input example_env = Some (py ''Y'')"
  "unicode_lower example_env = (\<lambda>s. s)"
  "malformed_markup example_env = (\<lambda>m. False)"
  "sigint_at example_env = None"
  by (simp_all add: example_env_def)

lemmas main_simps = return_apply raise_apply bind_apply try_except_apply try_finally_apply
  emit_apply get_server_process_apply set_server_process_apply poll_signals_apply
  sys_exit_def no_signal_def console_print_def cleanup_zombies_def requests_get_def
  probe_def time_sleep_def subprocess_Popen_def start_ollama_def proc_terminate_def
  proc_wait_def proc_kill_def stop_ollama_def signal_handler_def ollama_chat_def
  console_input_def subprocess_run_def display_output_def try_body_def finally_clause_def
  main_prog_def main_def initial_world_def Let_def

lemma main_startup_failure:
  assumes sig: "sigint_at en = None"
    and inst: "ollama_installed en"
    and args: "length (snd (detect_mode (argv en))) \<ge> 2"
    and down: "\<forall>n. is_ollama_running (probes en n) = Inr False"
  shows "main en =
     (Inl (SystemExit 1),
      \<lparr>server_process = None,
       trace = [Probe, Pkill, Probe, Popen 0] @ concat (replicate 21 [Probe, Sleep]) @
               [Print CouldNotStart],
       clock = 47, probe_count = 23, launched = 1\<rparr>)"
proof -
  obtain ask qs where dm: "detect_mode (argv en) = (ask, qs)" by (cases "detect_mode (argv en)")
  with args have len: "\<not> length qs < 2" by simp
  have loop: "wait_until_running (poll_signals en) en 0 w =
           (Inl (SystemExit 1),
            w\<lparr>trace := trace w @ concat (replicate 21 [Probe, Sleep]) @ [Print CouldNotStart],
              clock := clock w + 43, probe_count := probe_count w + 21\<rparr>)" for w
    using wait_until_running_fails [OF sig, of 20 w 0] down by simp
  show ?thesis
    by (simp add: main_simps dm len sig inst down loop cong: run_congs)
qed

lemma filter_rounds:
  "filter P (concat (replicate n [Probe, Sleep])) =
     concat (replicate n (filter P [Probe, Sleep]))"
  by (induction n) simp_all

lemma length_concat_replicate: "length (concat (replicate n xs)) = n * length xs"
  by (induction n) simp_all

section \<open>Claims about the life of the server\<close>

text \<open>
  C1: every server that the invocation started is stopped exactly once, however the
  invocation ends.  The code does not do this, at three places.  With no server
  reachable, SIGINT during the first sleep of the health poll: the process has been
  launched, but \<open>server_process\<close> is assigned only when \<open>start_ollama\<close> returns,
  so neither the handler nor the \<open>finally\<close> clause stops it.  With the server up
  after two sleeps, SIGINT during the chat: the handler stops the server, and the
  \<open>SystemExit\<close> it raises runs the \<open>finally\<close> clause, which stops it again.  With
  no server ever reachable and no signal: \<open>start_ollama\<close> exits and the launched
  process is never stopped.
\<close>

theorem started_server_not_stopped_once:
  "main (example_env\<lparr>sigint_at := Some 5\<rparr>) =
     (Inl (SystemExit 0),
      \<lparr>server_process = None,
       trace = [Probe, Pkill, Probe, Popen 0, Probe, Print Interrupted],
       clock = 6, probe_count = 3, launched = 1\<rparr>) \<and>
   main (example_env\<lparr>probes := (\<lambda>n. if n < 4 then ConnectionError else Response 200),
                      sigint_at := Some 9\<rparr>) =
     (Inl (SystemExit 0),
      \<lparr>server_process = Some 0,
       trace = [Probe, Pkill, Probe, Popen 0, Probe, Sleep, Probe, Sleep, Probe,
                Print Interrupted, Terminate 0, Wait 0, Terminate 0, Wait 0, Print PutToSleep],
       clock = 13, probe_count = 5, launched = 1\<rparr>) \<and>
   main example_env =
     (Inl (SystemExit 1),
      \<lparr>server_process = None,
       trace = [Probe, Pkill, Probe, Popen 0] @ concat (replicate 21 [Probe, Sleep]) @
               [Print CouldNotStart],
       clock = 47, probe_count = 23, launched = 1\<rparr>)"
proof (intro conjI)
  show "main (example_env\<lparr>sigint_at := Some 5\<rparr>) =
     (Inl (SystemExit 0),
      \<lparr>server_process = None,
       trace = [Probe, Pkill, Probe, Popen 0, Probe, Print Interrupted],
       clock = 6, probe_count = 3, launched = 1\<rparr>)"
    by (simp add: example_env_fields run_simps str_defs wait_until_running.simps cong: run_congs)
  show "main (example_env\<lparr>probes := (\<lambda>n. if n < 4 then ConnectionError else Response 200),
                      sigint_at := Some 9\<rparr>) =
     (Inl (SystemExit 0),
      \<lparr>server_process = Some 0,
       trace = [Probe, Pkill, Probe, Popen 0, Probe, Sleep, Probe, Sleep, Probe,
                Print Interrupted, Terminate 0, Wait 0, Terminate 0, Wait 0, Print PutToSleep],
       clock = 13, probe_count = 5, launched = 1\<rparr>)"
    by (simp add: example_env_fields run_simps str_defs wait_until_running.simps cong: run_congs)
  show "main example_env =
     (Inl (SystemExit 1),
      \<lparr>server_process = None,
       trace = [Probe, Pkill, Probe, Popen 0] @ concat (replicate 21 [Probe, Sleep]) @
               [Print CouldNotStart],
       clock = 47, probe_count = 23, launched = 1\<rparr>)"
    by (rule main_startup_failure)
       (simp_all add: example_env_fields detect_mode_def DASH_A_def py_def)
qed

text \<open>
  C2, as stated: \<open>start_ollama\<close> gives up after exactly 20 polls.  With no server
  reachable it polls 21 times after the launch, and sleeps 21 times: it gives up when
  the counter exceeds 20.
\<close>

theorem startup_gives_up_after_21_polls:
  "fst (main example_env) = Inl (SystemExit 1) \<and>
   length (filter (\<lambda>e. e = Sleep) (trace (snd (main example_env)))) = 21 \<and>
   length (filter (\<lambda>e. e = Probe)
             (dropWhile (\<lambda>e. e \<noteq> Popen 0) (trace (snd (main example_env))))) = 21 \<and>
   length (filter (\<lambda>e. e = Probe)
             (dropWhile (\<lambda>e. e \<noteq> Popen 0) (trace (snd (main example_env))))) \<noteq> 20"
proof -
  have "main example_env =
     (Inl (SystemExit 1),
      \<lparr>server_process = None,
       trace = [Probe, Pkill, Probe, Popen 0] @ concat (replicate 21 [Probe, Sleep]) @
               [Print CouldNotStart],
       clock = 47, probe_count = 23, launched = 1\<rparr>)"
    by (rule main_startup_failure)
       (simp_all add: example_env_fields detect_mode_def DASH_A_def py_def)
  then show ?thesis
    by (simp add: filter_rounds length_concat_replicate)
qed

text \<open>
  C2, amended: when no health request is ever answered, the server can be launched and
  no signal arrives, \<open>start_ollama\<close> gives up after exactly 21 polls, each followed
  by a sleep, the error is printed, the process exits with status 1 and the model is
  never called.
\<close>

theorem startup_failure_aborts:
  assumes "sigint_at en = None"
    and "ollama_installed en"
    and "length (snd (detect_mode (argv en))) \<ge> 2"
    and "\<forall>n. is_ollama_running (probes en n) = Inr False"
  shows "fst (main en) = Inl (SystemExit 1) \<and>
         length (filter (\<lambda>e. e = Sleep) (trace (snd (main en)))) = 21 \<and>
         length (filter (\<lambda>e. e = Probe)
                   (dropWhile (\<lambda>e. e \<noteq> Popen 0) (trace (snd (main en))))) = 21 \<and>
         Print CouldNotStart \<in> set (trace (snd (main en))) \<and>
         (\<forall>ask_mode query. Chat ask_mode query \<notin> set (trace (snd (main en))))"
  unfolding main_startup_failure [OF assms]
  by (simp add: filter_rounds length_concat_replicate)

theorem startup_failure_aborts_witness:
  "sigint_at example_env = None \<and> ollama_installed example_env \<and>
   length (snd (detect_mode (argv example_env))) \<ge> 2 \<and>
   (\<forall>n. is_ollama_running (probes example_env n) = Inr False) \<and>
   fst (main example_env) = Inl (SystemExit 1) \<and>
   length (filter (\<lambda>e. e = Sleep) (trace (snd (main example_env)))) = 21 \<and>
   (\<forall>ask_mode query. Chat ask_mode query \<notin> set (trace (snd (main example_env))))"
proof -
  have a: "sigint_at example_env = None" and b: "ollama_installed example_env"
    and c: "length (snd (detect_mode (argv example_env))) \<ge> 2"
    and d: "\<forall>n. is_ollama_running (probes example_env n) = Inr False"
    by (simp_all add: example_env_fields detect_mode_def DASH_A_def py_def)
  from startup_failure_aborts [OF a b c d] a b c d show ?thesis by blast
qed

section \<open>Properties kept by the program\<close>

lemma preservesI: "(\<And>w. Q w \<Longrightarrow> Q (snd (m w))) \<Longrightarrow> preserves Q m"
  by (simp add: preserves_def)

lemma preservesD: "preserves Q m \<Longrightarrow> Q w \<Longrightarrow> Q (snd (m w))"
  by (simp add: preserves_def)

lemma preserves_return: "preserves Q (return x)"
  by (simp add: preserves_def return_def)

lemma preserves_raise: "preserves Q (raise e)"
  by (simp add: preserves_def raise_def)

lemma preserves_sys_exit: "preserves Q (sys_exit code)"
  by (simp add: sys_exit_def preserves_raise)

lemma preserves_bind:
  assumes "preserves Q m" and "\<And>x. preserves Q (f x)"
  shows "preserves Q (bind m f)"
proof (rule preservesI)
  fix w assume q: "Q w"
  obtain r w' where m: "m w = (r, w')" by (cases "m w")
  from preservesD [OF assms(1) q] m have q': "Q w'" by simp
  show "Q (snd (bind m f w))"
  proof (cases r)
    case (Inl e)
    with m q' show ?thesis by (simp add: bind_def)
  next
    case (Inr x)
    with m preservesD [OF assms(2) q', of x] show ?thesis by (simp add: bind_def)
  qed
qed

lemma preserves_try_except:
  assumes "preserves Q m" and "\<And>e. preserves Q (h e)"
  shows "preserves Q (try_except m h)"
proof (rule preservesI)
  fix w assume q: "Q w"
  obtain r w' where m: "m w = (r, w')" by (cases "m w")
  from preservesD [OF assms(1) q] m have q': "Q w'" by simp
  show "Q (snd (try_except m h w))"
  proof (cases r)
    case (Inl e)
    with m q' preservesD [OF assms(2) q', of e] show ?thesis by (simp add: try_except_def)
  next
    case (Inr x)
    with m q' show ?thesis by (simp add: try_except_def)
  qed
qed

lemma preserves_try_finally:
  assumes "preserves Q m" and "preserves Q fin"
  shows "preserves Q (try_finally m fin)"
proof (rule preservesI)
  fix w assume q: "Q w"
  obtain r w' where m: "m w = (r, w')" by (cases "m w")
  from preservesD [OF assms(1) q] m have q': "Q w'" by simp
  obtain r' w'' where f: "fin w' = (r', w'')" by (cases "fin w'")
  from preservesD [OF assms(2) q'] f have "Q w''" by simp
  with m f show "Q (snd (try_finally m fin w))"
    by (cases r') (simp_all add: try_finally_def)
qed

lemma preserves_if:
  "preserves Q m \<Longrightarrow> preserves Q n \<Longrightarrow> preserves Q (if b then m else n)"
  by simp

lemma stable_trace: "stable bad Q \<Longrightarrow> Q w \<Longrightarrow> \<not> bad e \<Longrightarrow> Q (w\<lparr>trace := trace w @ [e]\<rparr>)"
  by (simp add: stable_def)

lemma stable_clock: "stable bad Q \<Longrightarrow> Q w \<Longrightarrow> Q (w\<lparr>clock := c\<rparr>)"
  by (simp add: stable_def)

lemma stable_probe_count: "stable bad Q \<Longrightarrow> Q w \<Longrightarrow> Q (w\<lparr>probe_count := n\<rparr>)"
  by (simp add: stable_def)

lemma stable_launched: "stable bad Q \<Longrightarrow> Q w \<Longrightarrow> Q (w\<lparr>launched := n\<rparr>)"
  by (simp add: stable_def)

lemma preserves_emit: "stable bad Q \<Longrightarrow> \<not> bad e \<Longrightarrow> preserves Q (emit e)"
  by (rule preservesI) (simp add: emit_def stable_trace)

lemma preserves_op:
  "stable bad Q \<Longrightarrow> preserves Q sig \<Longrightarrow> \<not> bad e \<Longrightarrow> preserves Q (bind sig (\<lambda>u. emit e))"
  by (intro preserves_bind preserves_emit)

lemma preserves_console_print:
  "stable bad Q \<Longrightarrow> preserves Q sig \<Longrightarrow> \<not> bad (Print m) \<Longrightarrow>
   preserves Q (console_print sig en m)"
  unfolding console_print_def
  by (intro preserves_bind preserves_if preserves_raise preserves_emit)

lemma preserves_usage:
  assumes "stable bad Q" and "preserves Q sig" and "\<And>m. \<not> bad (Print m)"
  shows "preserves Q
           (case args of
              [] \<Rightarrow> raise IndexError
            | name # rest \<Rightarrow> bind (console_print sig en (Usage name)) (\<lambda>u. sys_exit 1))"
proof (cases args)
  case Nil
  then show ?thesis by (simp add: preserves_raise)
next
  case (Cons name rest)
  have "preserves Q (bind (console_print sig en (Usage name)) (\<lambda>u. sys_exit 1))"
    by (intro preserves_bind preserves_sys_exit preserves_console_print [OF assms(1,2)] assms(3))
  with Cons show ?thesis by simp
qed

lemma preserves_time_sleep:
  "stable bad Q \<Longrightarrow> preserves Q sig \<Longrightarrow> \<not> bad Sleep \<Longrightarrow> preserves Q (time_sleep sig)"
  unfolding time_sleep_def by (rule preserves_op)

lemma preserves_probe:
  assumes "stable bad Q" and "preserves Q sig" and "\<not> bad Probe"
  shows "preserves Q (probe sig en)"
proof -
  have "preserves Q (\<lambda>w. (Inr (probes en (probe_count w)),
                      w\<lparr>trace := trace w @ [Probe], probe_count := probe_count w + 1\<rparr>))"
    by (rule preservesI) (simp add: stable_trace [OF assms(1) _ assms(3)] stable_probe_count [OF assms(1)])
  moreover have "preserves Q (\<lambda>w. (is_ollama_running r, w))" for r
    by (rule preservesI) simp
  ultimately show ?thesis
    unfolding probe_def requests_get_def by (intro preserves_bind assms(2))
qed

lemma preserves_ollama_chat:
  assumes "stable bad Q" and "preserves Q sig" and "\<not> bad (Chat a q)"
  shows "preserves Q (ollama_chat sig en a q)"
proof -
  have "preserves Q (\<lambda>w. (case chat_result en of Inl m \<Rightarrow> Inl (ChatError m) | Inr content \<Rightarrow> Inr content, w))"
    by (rule preservesI) simp
  then show ?thesis
    unfolding ollama_chat_def by (intro preserves_bind assms(2) preserves_emit [OF assms(1) assms(3)])
qed

lemma preserves_console_input:
  assumes "stable bad Q" and "preserves Q sig" and "\<not> bad Input"
  shows "preserves Q (console_input sig en)"
proof -
  have "preserves Q (\<lambda>w. (case confirm_input en of None \<Rightarrow> Inl EOFError | Some s \<Rightarrow> Inr s, w))"
    by (rule preservesI) simp
  then show ?thesis
    unfolding console_input_def by (intro preserves_bind assms(2) preserves_emit [OF assms(1) assms(3)])
qed

lemma preserves_get_server_process: "preserves Q get_server_process"
  by (simp add: preserves_def get_server_process_def)

lemma preserves_subprocess_run:
  "stable bad Q \<Longrightarrow> preserves Q sig \<Longrightarrow> \<not> bad (Run c) \<Longrightarrow> preserves Q (subprocess_run sig c)"
  unfolding subprocess_run_def by (rule preserves_op)

lemma preserves_cleanup_zombies:
  "stable bad Q \<Longrightarrow> preserves Q sig \<Longrightarrow> \<not> bad Pkill \<Longrightarrow> preserves Q (cleanup_zombies sig)"
  unfolding cleanup_zombies_def by (rule preserves_op)

lemma preserves_poll_signals:
  assumes "stable bad Q" and "preserves Q (signal_handler en)"
  shows "preserves Q (poll_signals en)"
proof (rule preservesI)
  fix w assume "Q w"
  then have "Q (w\<lparr>clock := clock w + 1\<rparr>)" by (rule stable_clock [OF assms(1)])
  with preservesD [OF assms(2), of "w\<lparr>clock := clock w + 1\<rparr>"]
  show "Q (snd (poll_signals en w))" by (simp add: poll_signals_def)
qed

lemma stable_untouched: "stable touches_server untouched"
  by (simp add: stable_def untouched_def)

lemma untouched_handler: "preserves untouched (signal_handler en)"
proof (rule preservesI)
  fix w assume u: "untouched w"
  then have "signal_handler en w = (Inl (SystemExit 0), w\<lparr>trace := trace w @ [Print Interrupted]\<rparr>)"
    by (simp add: signal_handler_def console_print_def no_signal_def bind_apply return_apply
        emit_apply get_server_process_apply sys_exit_def raise_apply untouched_def)
  with u show "untouched (snd (signal_handler en w))"
    by (simp add: untouched_def touches_server_def)
qed

lemma untouched_poll: "preserves untouched (poll_signals en)"
  by (rule preserves_poll_signals [OF stable_untouched untouched_handler])

lemma untouched_display_output:
  "preserves untouched (display_output (poll_signals en) en ask_mode content)"
  unfolding display_output_def Let_def
  by (intro preserves_if preserves_bind preserves_console_print [OF stable_untouched untouched_poll]
      preserves_console_input [OF stable_untouched untouched_poll]
      preserves_subprocess_run [OF stable_untouched untouched_poll])
     (simp_all add: touches_server_def)

lemma try_body_already_running:
  "try_body sig en ask_mode query True =
     bind (return ()) (\<lambda>u.
     bind (ollama_chat sig en ask_mode query) (\<lambda>response.
     display_output sig en ask_mode (strip response)))"
  by (simp add: try_body_def)

lemma finally_clause_already_running:
  "finally_clause sig en True = bind get_server_process (\<lambda>sp. return ())"
  by (simp add: finally_clause_def)

lemma untouched_rest:
  "preserves untouched
     (try_finally
        (try_except (try_body (poll_signals en) en ask_mode query True)
           (\<lambda>e. console_print (poll_signals en) en (ErrorMsg e)))
        (finally_clause (poll_signals en) en True))"
  unfolding try_body_already_running finally_clause_already_running
  by (intro preserves_try_finally preserves_try_except preserves_bind
      preserves_return preserves_get_server_process untouched_display_output
      preserves_ollama_chat [OF stable_untouched untouched_poll]
      preserves_console_print [OF stable_untouched untouched_poll])
     (simp_all add: touches_server_def)

lemma probe_healthy:
  assumes "probes en (probe_count w) = Response s" and "untouched w"
  shows "untouched (snd (probe (poll_signals en) en w)) \<and>
         (\<forall>x. fst (probe (poll_signals en) en w) = Inr x \<longrightarrow>
              x \<and> probe_count (snd (probe (poll_signals en) en w)) = probe_count w + 1)"
proof (cases "sigint_at en = Some (clock w)")
  case False
  then show ?thesis
    using assms stable_trace [OF stable_untouched assms(2), of Probe]
    by (simp add: probe_quiet untouched_def touches_server_def)
next
  case True
  from assms(2) have u: "untouched (w\<lparr>clock := clock w + 1\<rparr>)"
    by (simp add: untouched_def)
  then have "signal_handler en (w\<lparr>clock := clock w + 1\<rparr>) =
      (Inl (SystemExit 0), w\<lparr>clock := clock w + 1, trace := trace w @ [Print Interrupted]\<rparr>)"
    by (simp add: signal_handler_def console_print_def no_signal_def bind_apply return_apply
        emit_apply get_server_process_apply sys_exit_def raise_apply untouched_def)
  with True assms(2) show ?thesis
    by (simp add: probe_def requests_get_def bind_apply poll_signals_apply untouched_def
        touches_server_def)
qed

lemma untouched_initial: "untouched initial_world"
  by (simp add: untouched_def initial_world_def)

lemma main_already_healthy:
  assumes p0: "probes en 0 = Response s0" and p1: "probes en 1 = Response s1"
  shows "untouched (snd (main en))"
proof -
  let ?sig = "poll_signals en"
  obtain ask qs where dm: "detect_mode (argv en) = (ask, qs)" by (cases "detect_mode (argv en)")
  show ?thesis
  proof (cases "length qs < 2")
    case True
    have "preserves untouched
            (case qs of
               [] \<Rightarrow> raise IndexError
             | name # rest \<Rightarrow> bind (console_print ?sig en (Usage name)) (\<lambda>u. sys_exit 1))"
      by (rule preserves_usage [OF stable_untouched untouched_poll])
         (simp add: touches_server_def)
    from preservesD [OF this untouched_initial] True dm show ?thesis
      by (simp add: main_def main_prog_def Let_def)
  next
    case False
    let ?K2 = "\<lambda>was_already_running.
              try_finally
                (try_except
                   (try_body ?sig en ask (query_of qs) was_already_running)
                   (\<lambda>e. console_print ?sig en (ErrorMsg e)))
                (finally_clause ?sig en was_already_running)"
    let ?K1 = "\<lambda>running. bind (if \<not> running then cleanup_zombies ?sig else return ())
                 (\<lambda>u. bind (probe ?sig en) ?K2)"
    have m: "main en = bind (probe ?sig en) ?K1 initial_world"
      using False dm by (simp add: main_def main_prog_def Let_def)
    obtain r1 w1 where q1: "probe ?sig en initial_world = (r1, w1)"
      by (cases "probe ?sig en initial_world")
    have pc0: "probe_count initial_world = 0" by (simp add: initial_world_def)
    have "probes en (probe_count initial_world) = Response s0"
      using p0 by (simp add: pc0)
    from probe_healthy [OF this untouched_initial] q1 pc0
    have u1: "untouched w1" and v1: "\<forall>x. r1 = Inr x \<longrightarrow> x \<and> probe_count w1 = 1"
      by auto
    show ?thesis
    proof (cases r1)
      case (Inl e)
      with m q1 u1 show ?thesis by (simp add: bind_apply)
    next
      case (Inr x)
      with v1 have x: "x" and c1: "probe_count w1 = 1" by simp_all
      from m q1 Inr x have m2: "main en = bind (probe ?sig en) ?K2 w1"
        by (simp add: bind_apply return_apply)
      obtain r2 w2 where q2: "probe ?sig en w1 = (r2, w2)" by (cases "probe ?sig en w1")
      have "probes en (probe_count w1) = Response s1" using p1 c1 by simp
      from probe_healthy [OF this u1] q2
      have u2: "untouched w2" and v2: "\<forall>y. r2 = Inr y \<longrightarrow> y" by auto
      show ?thesis
      proof (cases r2)
        case (Inl e)
        with m2 q2 u2 show ?thesis by (simp add: bind_apply)
      next
        case (Inr y)
        with v2 have y: "y" by simp
        from m2 q2 Inr y have "main en = ?K2 True w2" by (simp add: bind_apply)
        with preservesD [OF untouched_rest u2, of en ask "query_of qs"] show ?thesis by simp
      qed
    qed
  qed
qed


section \<open>Confirmation\<close>

lemma ascii_lower_eq:
  "ascii_lower x = 121 \<longleftrightarrow> x = 121 \<or> x = 89"
  "ascii_lower x = 101 \<longleftrightarrow> x = 101 \<or> x = 69"
  "ascii_lower x = 115 \<longleftrightarrow> x = 115 \<or> x = 83"
  by (auto simp: ascii_lower_def)

lemma confirmed_ascii:
  assumes "list_all (\<lambda>x. x < 128) c"
  shows "confirmed (lower ul c) \<longleftrightarrow>
         c \<in> {[], py ''y'', py ''Y'', py ''yes'', py ''yeS'', py ''yEs'', py ''yES'',
              py ''Yes'', py ''YeS'', py ''YEs'', py ''YES''}"
proof -
  have l: "lower ul c = map ascii_lower c" using assms by (simp add: lower_def)
  have "map ascii_lower c = [121] \<longleftrightarrow> c = [121] \<or> c = [89]"
    by (cases c) (auto simp: ascii_lower_eq)
  moreover have "map ascii_lower c = [121, 101, 115] \<longleftrightarrow>
      (\<exists>a b d. c = [a, b, d] \<and> (a = 121 \<or> a = 89) \<and> (b = 101 \<or> b = 69) \<and> (d = 115 \<or> d = 83))"
    by (cases c; cases "tl c"; cases "tl (tl c)") (auto simp: ascii_lower_eq)
  ultimately show ?thesis
    unfolding l confirmed_def by (auto simp: py_def)
qed

lemma display_output_confirm:
  assumes "sigint_at en = None" and "confirm_input en = Some c"
    and "sanitize_command content \<noteq> []"
  shows "display_output (poll_signals en) en False content w =
     (Inr (),
      w\<lparr>trace := trace w @
           [Print (Suggested (sanitize_command content)), Input,
            if confirmed (lower (unicode_lower en) c) then Run (sanitize_command content)
            else Print Aborted],
        clock := clock w + 3\<rparr>)"
  using assms
  by (simp add: display_output_def Let_def bind_apply console_print_def console_input_def
      subprocess_run_def poll_signals_apply emit_apply cong: run_congs)

text \<open>
  C9: in command mode, with a command to suggest and no signal, the suggestion is
  printed, the user is asked, and the command is run exactly when the lowered input is
  the empty string, \<open>y\<close> or \<open>yes\<close>; otherwise \<open>Aborted\<close> is printed and nothing is
  run.  The empty input, \<open>y\<close>, \<open>Y\<close>, \<open>yes\<close> and \<open>YES\<close> are accepted, \<open>n\<close> is not,
  and among the inputs of ASCII code points exactly the empty one and the spellings of
  \<open>y\<close> and \<open>yes\<close> in either case are accepted.
\<close>

theorem confirmation_decides_execution:
  "(sigint_at en = None \<and> confirm_input en = Some c \<and> sanitize_command content \<noteq> [] \<longrightarrow>
      display_output (poll_signals en) en False content w =
        (Inr (),
         w\<lparr>trace := trace w @
              [Print (Suggested (sanitize_command content)), Input,
               if confirmed (lower (unicode_lower en) c) then Run (sanitize_command content)
               else Print Aborted],
           clock := clock w + 3\<rparr>)) \<and>
   confirmed (lower ul []) \<and> confirmed (lower ul (py ''y'')) \<and>
   confirmed (lower ul (py ''Y'')) \<and> confirmed (lower ul (py ''yes'')) \<and>
   confirmed (lower ul (py ''YES'')) \<and> \<not> confirmed (lower ul (py ''n'')) \<and>
   (list_all (\<lambda>x. x < 128) a \<longrightarrow>
      (confirmed (lower ul a) \<longleftrightarrow>
       a \<in> {[], py ''y'', py ''Y'', py ''yes'', py ''yeS'', py ''yEs'', py ''yES'',
             py ''Yes'', py ''YeS'', py ''YEs'', py ''YES''}))"
proof (intro conjI impI)
  assume "sigint_at en = None \<and> confirm_input en = Some c \<and> sanitize_command content \<noteq> []"
  then show "display_output (poll_signals en) en False content w =
        (Inr (),
         w\<lparr>trace := trace w @
              [Print (Suggested (sanitize_command content)), Input,
               if confirmed (lower (unicode_lower en) c) then Run (sanitize_command content)
               else Print Aborted],
           clock := clock w + 3\<rparr>)"
    by (intro display_output_confirm) simp_all
next
  show "confirmed (lower ul [])" "confirmed (lower ul (py ''y''))"
    "confirmed (lower ul (py ''Y''))" "confirmed (lower ul (py ''yes''))"
    "confirmed (lower ul (py ''YES''))" "\<not> confirmed (lower ul (py ''n''))"
    by (simp_all add: confirmed_def lower_def ascii_lower_def py_def)
next
  assume "list_all (\<lambda>x. x < 128) a"
  then show "confirmed (lower ul a) \<longleftrightarrow>
       a \<in> {[], py ''y'', py ''Y'', py ''yes'', py ''yeS'', py ''yEs'', py ''yES'',
             py ''Yes'', py ''YeS'', py ''YEs'', py ''YES''}"
    by (rule confirmed_ascii)
qed

theorem confirmation_decides_execution_witness:
  "sigint_at example_env = None \<and> confirm_input example_env = Some (py ''Y'') \<and>
   sanitize_command (py ''`ls`'') \<noteq> [] \<and>
   display_output (poll_signals example_env) example_env False (py ''`ls`'') initial_world =
     (Inr (),
      \<lparr>server_process = None,
       trace = [Print (Suggested (py ''ls'')), Input, Run (py ''ls'')],
       clock = 3, probe_count = 0, launched = 0\<rparr>) \<and>
   list_all (\<lambda>x. x < 128) (py ''no'') \<and> \<not> confirmed (lower (\<lambda>s. s) (py ''no''))"
proof -
  have h: "sigint_at example_env = None \<and> confirm_input example_env = Some (py ''Y'') \<and>
           sanitize_command (py ''`ls`'') \<noteq> []"
    by (simp add: example_env_fields str_defs)
  have g: "list_all (\<lambda>x. x < 128) (py ''no'')" by (simp add: py_def)
  have n: "py ''no'' \<notin> {[], py ''y'', py ''Y'', py ''yes'', py ''yeS'', py ''yEs'', py ''yES'',
             py ''Yes'', py ''YeS'', py ''YEs'', py ''YES''}"
    by (simp add: py_def)
  from confirmation_decides_execution
    [of example_env "py ''Y''" "py ''`ls`''" initial_world "\<lambda>s. s" "py ''no''"] h g n
  have "display_output (poll_signals example_env) example_env False (py ''`ls`'') initial_world =
        (Inr (),
         initial_world\<lparr>trace := trace initial_world @
              [Print (Suggested (sanitize_command (py ''`ls`''))), Input,
               if confirmed (lower (unicode_lower example_env) (py ''Y''))
               then Run (sanitize_command (py ''`ls`'')) else Print Aborted],
           clock := clock initial_world + 3\<rparr>)"
    and "\<not> confirmed (lower (\<lambda>s. s) (py ''no''))"
    by blast+
  moreover have "sanitize_command (py ''`ls`'') = py ''ls''" by (simp add: str_defs)
  moreover have "confirmed (lower (unicode_lower example_env) (py ''Y''))"
    by (simp add: confirmed_def lower_def ascii_lower_def py_def)
  ultimately show ?thesis using h g by (simp add: initial_world_def)
qed

section \<open>Nothing is run without a command\<close>

lemma preserves_if_cases:
  "(b \<Longrightarrow> preserves Q m) \<Longrightarrow> (\<not> b \<Longrightarrow> preserves Q n) \<Longrightarrow> preserves Q (if b then m else n)"
  by simp

lemma preserves_stop_ollama:
  assumes "stable bad Q" and "preserves Q sig"
    and "\<And>p. \<not> bad (Terminate p)" and "\<And>p. \<not> bad (Wait p)" and "\<And>p. \<not> bad (Kill p)"
  shows "preserves Q (stop_ollama sig en process)"
proof (cases process)
  case None
  then show ?thesis by (simp add: stop_ollama_def preserves_return)
next
  case (Some p)
  show ?thesis
    unfolding Some stop_ollama_def option.case proc_terminate_def proc_wait_def proc_kill_def
    by (intro preserves_bind preserves_if preserves_return assms(2)
        preserves_emit [OF assms(1)] assms(3-5))
qed

lemma preserves_wait_until_running:
  assumes "stable bad Q" and "preserves Q sig"
    and "\<not> bad Probe" and "\<not> bad Sleep" and "\<not> bad (Print CouldNotStart)"
  shows "preserves Q (wait_until_running sig en retries)"
  using assms
proof (induction sig en retries rule: wait_until_running.induct)
  case (1 sig en retries)
  show ?case
    by (subst wait_until_running.simps)
       (intro preserves_bind preserves_if_cases preserves_return preserves_sys_exit
          preserves_probe [OF "1.prems"(1,2,3)] preserves_time_sleep [OF "1.prems"(1,2,4)]
          preserves_console_print [OF "1.prems"(1,2,5)] "1.IH" "1.prems")
qed

lemma preserves_subprocess_Popen:
  assumes "stable bad Q" and "preserves Q sig" and "\<And>p. \<not> bad (Popen p)"
  shows "preserves Q (subprocess_Popen sig en)"
proof -
  have "preserves Q (\<lambda>w.
       if ollama_installed en
       then (Inr (launched w),
             w\<lparr>trace := trace w @ [Popen (launched w)], launched := launched w + 1\<rparr>)
       else (Inl FileNotFoundError, w))"
    by (rule preservesI)
       (simp add: stable_trace [OF assms(1) _ assms(3)] stable_launched [OF assms(1)])
  then show ?thesis
    unfolding subprocess_Popen_def by (intro preserves_bind assms(2))
qed

lemma preserves_start_ollama:
  assumes "stable bad Q" and "preserves Q sig" and "\<And>p. \<not> bad (Popen p)"
    and "\<not> bad Probe" and "\<not> bad Sleep" and "\<not> bad (Print CouldNotStart)"
  shows "preserves Q (start_ollama sig en)"
  unfolding start_ollama_def
  by (intro preserves_bind preserves_return preserves_subprocess_Popen [OF assms(1,2,3)]
      preserves_wait_until_running [OF assms(1,2,4,5,6)])

lemma stable_nothing_run: "stable is_run nothing_run"
  by (simp add: stable_def nothing_run_def)

lemma nothing_run_set_server_process: "preserves nothing_run (set_server_process p)"
  by (simp add: preserves_def set_server_process_def nothing_run_def)

lemma nothing_run_handler: "preserves nothing_run (signal_handler en)"
  unfolding signal_handler_def no_signal_def
  by (intro preserves_bind preserves_if preserves_return preserves_sys_exit
      preserves_get_server_process preserves_console_print [OF stable_nothing_run]
      preserves_stop_ollama [OF stable_nothing_run])
     (simp_all add: is_run_def)

lemma nothing_run_poll: "preserves nothing_run (poll_signals en)"
  by (rule preserves_poll_signals [OF stable_nothing_run nothing_run_handler])

lemma chat_then:
  "chat_result en = Inr raw \<Longrightarrow>
   bind (ollama_chat sig en a q) f = bind sig (\<lambda>u. bind (emit (Chat a q)) (\<lambda>u. f raw))"
  by (auto simp: fun_eq_iff bind_def ollama_chat_def emit_def split: prod.splits sum.splits)

lemma display_output_empty:
  "sanitize_command content = [] \<Longrightarrow>
   display_output sig en ask_mode content =
     console_print sig en (if ask_mode then Answer content else EmptyCommand)"
  by (simp add: display_output_def)

lemma nothing_run_try_body:
  assumes "chat_result en = Inr raw" and "sanitize_command (strip raw) = []"
  shows "preserves nothing_run (try_body (poll_signals en) en ask_mode query was)"
  unfolding try_body_def chat_then [OF assms(1)] display_output_empty [OF assms(2)]
  by (intro preserves_bind preserves_if preserves_return nothing_run_poll
      nothing_run_set_server_process preserves_emit [OF stable_nothing_run]
      preserves_console_print [OF stable_nothing_run nothing_run_poll]
      preserves_start_ollama [OF stable_nothing_run nothing_run_poll])
     (simp_all add: is_run_def)

lemma nothing_run_finally_clause:
  "preserves nothing_run (finally_clause (poll_signals en) en was)"
  unfolding finally_clause_def
  by (intro preserves_bind preserves_if preserves_return preserves_get_server_process
      preserves_console_print [OF stable_nothing_run nothing_run_poll]
      preserves_stop_ollama [OF stable_nothing_run nothing_run_poll])
     (simp_all add: is_run_def)

lemma main_nothing_run:
  assumes "chat_result en = Inr raw" and "sanitize_command (strip raw) = []"
  shows "nothing_run (snd (main en))"
proof -
  have "preserves nothing_run (main_prog en)"
    unfolding main_prog_def Let_def split_beta
    by (intro preserves_bind preserves_if preserves_return preserves_sys_exit
        preserves_try_finally preserves_try_except
        preserves_usage [OF stable_nothing_run nothing_run_poll]
        nothing_run_try_body [OF assms] nothing_run_finally_clause
        preserves_probe [OF stable_nothing_run nothing_run_poll]
        preserves_cleanup_zombies [OF stable_nothing_run nothing_run_poll]
        preserves_console_print [OF stable_nothing_run nothing_run_poll])
       (simp_all add: is_run_def)
  moreover have "nothing_run initial_world" by (simp add: nothing_run_def initial_world_def)
  ultimately show ?thesis unfolding main_def by (rule preservesD)
qed

section \<open>The empty result\<close>

text \<open>
  C6: for a model output made of white space and fences only, \<open>sanitize_command\<close>
  returns the empty string, whether or not the text was trimmed before; the caller then
  prints the empty-command error instead of a suggestion; and in no run of \<open>main\<close>
  on such an output, whatever else happens, is a command run.  With a healthy server and
  no signal the whole run is two health requests, the chat and that error.
\<close>

theorem empty_result_not_executed:
  assumes "only_ws_fences raw"
  shows "sanitize_command raw = [] \<and>
         sanitize_command (strip raw) = [] \<and>
         (\<forall>sig en. display_output sig en False (strip raw) = console_print sig en EmptyCommand) \<and>
         (\<forall>en. chat_result en = Inr raw \<longrightarrow> (\<forall>c. Run c \<notin> set (trace (snd (main en))))) \<and>
         (\<forall>en qs s0 s1.
            chat_result en = Inr raw \<and> detect_mode (argv en) = (False, qs) \<and>
            2 \<le> length qs \<and> probes en 0 = Response s0 \<and> probes en 1 = Response s1 \<and>
            sigint_at en = None \<longrightarrow>
            main en =
              (Inr (),
               \<lparr>server_process = None,
                trace = [Probe, Probe, Chat False (query_of qs), Print EmptyCommand],
                clock = 4, probe_count = 2, launched = 0\<rparr>))"
proof -
  have e: "sanitize_command raw = []" using assms by (rule sanitize_only_ws_fences)
  have s: "sanitize_command (strip raw) = []"
    using owf_strip [OF assms] by (rule sanitize_only_ws_fences)
  have d: "\<forall>sig en. display_output sig en False (strip raw) = console_print sig en EmptyCommand"
    by (simp add: display_output_empty [OF s])
  have r: "\<forall>c. Run c \<notin> set (trace (snd (main en)))" if "chat_result en = Inr raw" for en
  proof -
    from main_nothing_run [OF that s]
    have "\<forall>ev\<in>set (trace (snd (main en))). \<not> is_run ev"
      by (simp add: nothing_run_def list_all_iff)
    moreover have "is_run (Run c)" for c by (simp add: is_run_def)
    ultimately show ?thesis by blast
  qed
  have m: "main en =
              (Inr (),
               \<lparr>server_process = None,
                trace = [Probe, Probe, Chat False (query_of qs), Print EmptyCommand],
                clock = 4, probe_count = 2, launched = 0\<rparr>)"
    if "chat_result en = Inr raw \<and> detect_mode (argv en) = (False, qs) \<and>
            2 \<le> length qs \<and> probes en 0 = Response s0 \<and> probes en 1 = Response s1 \<and>
            sigint_at en = None" for en qs s0 s1
    using that s by (simp add: main_simps cong: run_congs)
  from e s d r m show ?thesis by blast
qed

theorem empty_result_not_executed_witness:
  "only_ws_fences (py ('' ```'' @ [CHR 0x0A] @ ''``` '')) \<and>
   sanitize_command (py ('' ```'' @ [CHR 0x0A] @ ''``` '')) = [] \<and>
   main (example_env\<lparr>probes := (\<lambda>n. Response 200),
                      chat_result := Inr (py ('' ```'' @ [CHR 0x0A] @ ''``` ''))\<rparr>) =
     (Inr (),
      \<lparr>server_process = None,
       trace = [Probe, Probe, Chat False (py ''list files''), Print EmptyCommand],
       clock = 4, probe_count = 2, launched = 0\<rparr>)"
proof -
  let ?raw = "py ('' ```'' @ [CHR 0x0A] @ ''``` '')"
  let ?en = "example_env\<lparr>probes := (\<lambda>n. Response 200), chat_result := Inr ?raw\<rparr>"
  have o: "only_ws_fences ?raw"
    by (simp add: py_def is_space_def BACKTICK_def)
  have h: "chat_result ?en = Inr ?raw \<and>
           detect_mode (argv ?en) = (False, [py ''pls'', py ''list'', py ''files'']) \<and>
           2 \<le> length [py ''pls'', py ''list'', py ''files''] \<and>
           probes ?en 0 = Response 200 \<and> probes ?en 1 = Response 200 \<and> sigint_at ?en = None"
    by (simp add: example_env_fields detect_mode_def DASH_A_def py_def)
  have q: "query_of [py ''pls'', py ''list'', py ''files''] = py ''list files''"
    by (simp add: query_of_def py_def SPACE_def)
  from empty_result_not_executed [OF o] h
  have "sanitize_command ?raw = []"
    and "main ?en =
              (Inr (),
               \<lparr>server_process = None,
                trace = [Probe, Probe, Chat False (query_of [py ''pls'', py ''list'', py ''files'']),
                         Print EmptyCommand],
                clock = 4, probe_count = 2, launched = 0\<rparr>)"
    by blast+
  with o show ?thesis unfolding q by (intro conjI)
qed

section \<open>A second application of sanitize_command\<close>



































section \<open>The health probe\<close>

text \<open>
  C7, as stated: \<open>is_ollama_running\<close> never lets a network error reach its caller.
  The \<open>except\<close> clause names two classes of exception; what the request raises
  outside them is raised further, and \<open>main\<close>, whose first health check is outside
  the \<open>try\<close>, ends with it.
\<close>

theorem health_probe_propagates_other_errors:
  "is_ollama_running OtherRequestError = Inl RequestError \<and>
   main (example_env\<lparr>probes := (\<lambda>n. OtherRequestError)\<rparr>) =
     (Inl RequestError,
      \<lparr>server_process = None, trace = [Probe], clock = 1, probe_count = 1, launched = 0\<rparr>)"
  by (simp add: example_env_fields run_simps str_defs cong: run_congs)

text \<open>
  C7, amended: \<open>is_ollama_running\<close> returns true exactly when the request is answered,
  with whatever status code; it returns false exactly when the request fails to
  connect or times out, while connecting or while reading; and it raises exactly when
  the request raises something else.  One health check makes one request and nothing
  more.
\<close>

theorem health_probe_outcomes:
  "(is_ollama_running r = Inr True \<longleftrightarrow> (\<exists>status. r = Response status)) \<and>
   (is_ollama_running r = Inr False \<longleftrightarrow>
      r = ConnectionError \<or> r = ConnectTimeout \<or> r = ReadTimeout) \<and>
   ((\<exists>e. is_ollama_running r = Inl e) \<longleftrightarrow> r = OtherRequestError) \<and>
   (sigint_at en \<noteq> Some (clock w) \<longrightarrow>
      probe (poll_signals en) en w =
        (is_ollama_running (probes en (probe_count w)),
         w\<lparr>trace := trace w @ [Probe], clock := clock w + 1,
           probe_count := probe_count w + 1\<rparr>))"
  by (cases r) (simp_all add: probe_quiet)

theorem health_probe_outcomes_witness:
  "sigint_at example_env \<noteq> Some (clock initial_world) \<and>
   probes example_env (probe_count initial_world) = ConnectionError \<and>
   probe (poll_signals example_env) example_env initial_world =
     (Inr False,
      \<lparr>server_process = None, trace = [Probe], clock = 1, probe_count = 1, launched = 0\<rparr>)"
proof -
  have a: "sigint_at example_env \<noteq> Some (clock initial_world)"
    by (simp add: example_env_fields)
  have b: "probes example_env (probe_count initial_world) = ConnectionError"
    by (simp add: example_env_fields)
  from health_probe_outcomes [of ConnectionError example_env initial_world] a
  have f: "is_ollama_running ConnectionError = Inr False"
    and p: "probe (poll_signals example_env) example_env initial_world =
        (is_ollama_running (probes example_env (probe_count initial_world)),
         initial_world\<lparr>trace := trace initial_world @ [Probe], clock := clock initial_world + 1,
           probe_count := probe_count initial_world + 1\<rparr>)"
    by blast+
  from p have "probe (poll_signals example_env) example_env initial_world =
     (Inr False,
      \<lparr>server_process = None, trace = [Probe], clock = 1, probe_count = 1, launched = 0\<rparr>)"
    unfolding b f by (simp add: initial_world_def)
  with a b show ?thesis by (intro conjI)
qed

section \<open>A server that answers at the start\<close>

lemma signal_handler_exits: "fst (signal_handler en w) = Inl (SystemExit 0)"
  by (cases "server_process w"; cases "exits_in_time en")
     (simp_all add: signal_handler_def console_print_def no_signal_def bind_apply return_apply
        emit_apply get_server_process_apply sys_exit_def raise_apply stop_ollama_def
        proc_terminate_def proc_wait_def proc_kill_def cong: run_congs)

lemma probe_answered:
  assumes "probes en (probe_count w) = Response s"
    and "fst (probe (poll_signals en) en w) = Inr x"
  shows "x"
proof (cases "sigint_at en = Some (clock w)")
  case False
  with assms show ?thesis by (simp add: probe_quiet)
next
  case True
  obtain r w' where h: "signal_handler en (w\<lparr>clock := clock w + 1\<rparr>) = (r, w')"
    by (cases "signal_handler en (w\<lparr>clock := clock w + 1\<rparr>)")
  with signal_handler_exits [of en "w\<lparr>clock := clock w + 1\<rparr>"]
  have "r = Inl (SystemExit 0)" by simp
  with True h have "fst (probe (poll_signals en) en w) = Inl (SystemExit 0)"
    by (simp add: probe_def requests_get_def bind_apply poll_signals_apply)
  with assms(2) show ?thesis by simp
qed

lemma stable_nothing_reaped: "stable (\<lambda>e. e = Pkill) nothing_reaped"
  by (simp add: stable_def nothing_reaped_def)

lemma nothing_reaped_set_server_process: "preserves nothing_reaped (set_server_process p)"
  by (simp add: preserves_def set_server_process_def nothing_reaped_def)

lemma nothing_reaped_handler: "preserves nothing_reaped (signal_handler en)"
  unfolding signal_handler_def no_signal_def
  by (intro preserves_bind preserves_if preserves_return preserves_sys_exit
      preserves_get_server_process preserves_console_print [OF stable_nothing_reaped]
      preserves_stop_ollama [OF stable_nothing_reaped])
     simp_all

lemma nothing_reaped_poll: "preserves nothing_reaped (poll_signals en)"
  by (rule preserves_poll_signals [OF stable_nothing_reaped nothing_reaped_handler])

lemma nothing_reaped_display_output:
  "preserves nothing_reaped (display_output (poll_signals en) en ask_mode content)"
  unfolding display_output_def Let_def
  by (intro preserves_if preserves_bind
      preserves_console_print [OF stable_nothing_reaped nothing_reaped_poll]
      preserves_console_input [OF stable_nothing_reaped nothing_reaped_poll]
      preserves_subprocess_run [OF stable_nothing_reaped nothing_reaped_poll])
     simp_all

lemma nothing_reaped_rest:
  "preserves nothing_reaped
     (try_finally
        (try_except (try_body (poll_signals en) en ask_mode query was)
           (\<lambda>e. console_print (poll_signals en) en (ErrorMsg e)))
        (finally_clause (poll_signals en) en was))"
  unfolding try_body_def finally_clause_def
  by (intro preserves_try_finally preserves_try_except preserves_bind preserves_if
      preserves_return preserves_get_server_process nothing_reaped_display_output
      nothing_reaped_set_server_process
      preserves_start_ollama [OF stable_nothing_reaped nothing_reaped_poll]
      preserves_stop_ollama [OF stable_nothing_reaped nothing_reaped_poll]
      preserves_ollama_chat [OF stable_nothing_reaped nothing_reaped_poll]
      preserves_console_print [OF stable_nothing_reaped nothing_reaped_poll])
     simp_all

lemma main_first_probe_answered:
  assumes p0: "probes en 0 = Response s0"
  shows "nothing_reaped (snd (main en))"
proof -
  let ?sig = "poll_signals en"
  have i: "nothing_reaped initial_world" by (simp add: nothing_reaped_def initial_world_def)
  obtain ask qs where dm: "detect_mode (argv en) = (ask, qs)" by (cases "detect_mode (argv en)")
  show ?thesis
  proof (cases "length qs < 2")
    case True
    have "preserves nothing_reaped
            (case qs of
               [] \<Rightarrow> raise IndexError
             | name # rest \<Rightarrow> bind (console_print ?sig en (Usage name)) (\<lambda>u. sys_exit 1))"
      by (rule preserves_usage [OF stable_nothing_reaped nothing_reaped_poll]) simp
    from preservesD [OF this i] True dm show ?thesis
      by (simp add: main_def main_prog_def Let_def)
  next
    case False
    let ?K2 = "\<lambda>was_already_running.
              try_finally
                (try_except
                   (try_body ?sig en ask (query_of qs) was_already_running)
                   (\<lambda>e. console_print ?sig en (ErrorMsg e)))
                (finally_clause ?sig en was_already_running)"
    let ?K1 = "\<lambda>running. bind (if \<not> running then cleanup_zombies ?sig else return ())
                 (\<lambda>u. bind (probe ?sig en) ?K2)"
    have m: "main en = bind (probe ?sig en) ?K1 initial_world"
      using False dm by (simp add: main_def main_prog_def Let_def)
    obtain r1 w1 where q1: "probe ?sig en initial_world = (r1, w1)"
      by (cases "probe ?sig en initial_world")
    have pr: "preserves nothing_reaped (probe ?sig en)"
      by (rule preserves_probe [OF stable_nothing_reaped nothing_reaped_poll]) simp
    from preservesD [OF pr i] q1 have u1: "nothing_reaped w1" by simp
    show ?thesis
    proof (cases r1)
      case (Inl e)
      with m q1 u1 show ?thesis by (simp add: bind_apply)
    next
      case (Inr x)
      have "probes en (probe_count initial_world) = Response s0"
        using p0 by (simp add: initial_world_def)
      from probe_answered [OF this, of x] q1 Inr have x: "x" by simp
      have "preserves nothing_reaped (bind (return ()) (\<lambda>u. bind (probe ?sig en) ?K2))"
        by (intro preserves_bind preserves_return pr nothing_reaped_rest)
      from preservesD [OF this u1] m q1 Inr x show ?thesis
        by (simp add: bind_apply)
    qed
  qed
qed

text \<open>
  C5, as stated: if the server is healthy when the invocation begins, no server is
  started and none is stopped.  \<open>main\<close> asks twice, and \<open>was_already_running\<close> is the
  second answer: with the first request answered and the second one timed out, a
  server is launched, and terminated in the \<open>finally\<close> clause.
\<close>

theorem healthy_at_start_then_missed_probe:
  "probes (example_env\<lparr>probes := (\<lambda>n. if n = 1 then ReadTimeout else Response 200)\<rparr>) 0 =
     Response 200 \<and>
   main (example_env\<lparr>probes := (\<lambda>n. if n = 1 then ReadTimeout else Response 200)\<rparr>) =
     (Inr (),
      \<lparr>server_process = Some 0,
       trace = [Probe, Probe, Popen 0, Probe, Chat False (py ''list files''),
                Print (Suggested (py ''ls'')), Input, Run (py ''ls''),
                Terminate 0, Wait 0, Print PutToSleep],
       clock = 11, probe_count = 3, launched = 1\<rparr>)"
  by (simp add: example_env_fields run_simps str_defs wait_until_running.simps cong: run_congs)

text \<open>
  C5, amended: when the first health request of \<open>main\<close> is answered, stray processes
  are never killed; when the second one is answered as well, then whatever the
  arguments, the model, the user and a signal do, no server is launched, terminated or
  killed and no handle is held.
\<close>

theorem healthy_server_left_alone:
  "(probes en 0 = Response s0 \<longrightarrow> Pkill \<notin> set (trace (snd (main en)))) \<and>
   (probes en 0 = Response s0 \<and> probes en 1 = Response s1 \<longrightarrow>
      server_process (snd (main en)) = None \<and>
      (\<forall>p. Popen p \<notin> set (trace (snd (main en))) \<and>
           Terminate p \<notin> set (trace (snd (main en))) \<and>
           Kill p \<notin> set (trace (snd (main en)))))"
proof (intro conjI impI)
  assume "probes en 0 = Response s0"
  from main_first_probe_answered [OF this]
  show "Pkill \<notin> set (trace (snd (main en)))"
    by (auto simp: nothing_reaped_def list_all_iff)
next
  assume "probes en 0 = Response s0 \<and> probes en 1 = Response s1"
  then have "untouched (snd (main en))" by (intro main_already_healthy) simp_all
  then have s: "server_process (snd (main en)) = None"
    and t: "\<forall>e\<in>set (trace (snd (main en))). \<not> touches_server e"
    by (simp_all add: untouched_def list_all_iff)
  have "\<And>p. touches_server (Popen p)"
    and "\<And>p. touches_server (Terminate p)" and "\<And>p. touches_server (Kill p)"
    by (simp_all add: touches_server_def)
  with t have "\<forall>p. Popen p \<notin> set (trace (snd (main en))) \<and>
              Terminate p \<notin> set (trace (snd (main en))) \<and>
              Kill p \<notin> set (trace (snd (main en)))"
    by blast
  with s show "server_process (snd (main en)) = None"
    and "\<forall>p. Popen p \<notin> set (trace (snd (main en))) \<and>
              Terminate p \<notin> set (trace (snd (main en))) \<and>
              Kill p \<notin> set (trace (snd (main en)))"
    by simp_all
qed

theorem healthy_server_left_alone_witness:
  "probes (example_env\<lparr>probes := (\<lambda>n. Response 200)\<rparr>) 0 = Response 200 \<and>
   probes (example_env\<lparr>probes := (\<lambda>n. Response 200)\<rparr>) 1 = Response 200 \<and>
   server_process (snd (main (example_env\<lparr>probes := (\<lambda>n. Response 200)\<rparr>))) = None \<and>
   Pkill \<notin> set (trace (snd (main (example_env\<lparr>probes := (\<lambda>n. Response 200)\<rparr>)))) \<and>
   (\<forall>p. Popen p \<notin> set (trace (snd (main (example_env\<lparr>probes := (\<lambda>n. Response 200)\<rparr>)))) \<and>
        Terminate p \<notin> set (trace (snd (main (example_env\<lparr>probes := (\<lambda>n. Response 200)\<rparr>)))) \<and>
        Kill p \<notin> set (trace (snd (main (example_env\<lparr>probes := (\<lambda>n. Response 200)\<rparr>))))) \<and>
   main (example_env\<lparr>probes := (\<lambda>n. Response 200)\<rparr>) =
     (Inr (),
      \<lparr>server_process = None,
       trace = [Probe, Probe, Chat False (py ''list files''), Print (Suggested (py ''ls'')),
                Input, Run (py ''ls'')],
       clock = 6, probe_count = 2, launched = 0\<rparr>)"
proof -
  have a: "probes (example_env\<lparr>probes := (\<lambda>n. Response 200)\<rparr>) 0 = Response 200"
    and b: "probes (example_env\<lparr>probes := (\<lambda>n. Response 200)\<rparr>) 1 = Response 200"
    by simp_all
  have m: "main (example_env\<lparr>probes := (\<lambda>n. Response 200)\<rparr>) =
     (Inr (),
      \<lparr>server_process = None,
       trace = [Probe, Probe, Chat False (py ''list files''), Print (Suggested (py ''ls'')),
                Input, Run (py ''ls'')],
       clock = 6, probe_count = 2, launched = 0\<rparr>)"
    by (simp add: example_env_fields run_simps str_defs cong: run_congs)
  from healthy_server_left_alone
    [of "example_env\<lparr>probes := (\<lambda>n. Response 200)\<rparr>" 200 200] a b m
  show ?thesis by blast
qed

end
